theory Spec2Isabelle
  imports Main "HOL-Library.Word"
begin

section \<open>Leaf variants (pkg/tree)\<close>

text \<open>
  Modelled from the spec: the type \<open>cache.Update\<close> (package pkg/cache) is not part of the
  sources at hand. The spec (6.2) says that an Update carries
  (path, value-bytes, priority, owner, timestamp). The priority is an int32 that is only
  ever compared, so it is an \<open>int\<close> here.
\<close>

record update =
  path :: "string list"
  val :: "8 word list"
  priority :: int
  owner :: string
  ts :: int

text \<open>
  Modelled from the spec: the struct \<open>LeafEntry\<close> is used, not declared, in the sources at
  hand: a \<open>cache.Update\<close> together with the flags \<open>IsNew\<close>, \<open>Delete\<close> and \<open>IsUpdated\<close>
  (spec 3, "Flags: new, updated, delete").
\<close>

record leafEntry =
  Update :: update
  IsNew :: bool
  Delete :: bool
  IsUpdated :: bool

text \<open>\<open>LeafEntry.Priority()\<close>, \<open>LeafEntry.Owner()\<close> and \<open>LeafEntry.GetPath()\<close> read the update.\<close>

definition Priority :: "leafEntry \<Rightarrow> int" where
  "Priority e = priority (Update e)"

definition Owner :: "leafEntry \<Rightarrow> string" where
  "Owner e = owner (Update e)"

definition GetPath :: "leafEntry \<Rightarrow> string list" where
  "GetPath e = path (Update e)"

text \<open>
  Modelled from the spec: the constant \<open>RunningIntentName\<close> is declared outside the sources
  at hand; the spec names the reserved owner \<open>running\<close>.
\<close>

definition RunningIntentName :: string where
  "RunningIntentName = ''running''"

type_synonym LeafVariants = "leafEntry list"

text \<open>The \<open>for\<close> loop of \<open>LeafVariants.shouldDelete\<close>, leaving at the first live variant.\<close>

fun shouldDelete_loop :: "LeafVariants \<Rightarrow> bool" where
  "shouldDelete_loop [] = True"
| "shouldDelete_loop (l # ls) =
     (if \<not> (Delete l \<or> Owner l = RunningIntentName) then False else shouldDelete_loop ls)"

definition shouldDelete :: "LeafVariants \<Rightarrow> bool" where
  "shouldDelete lv =
     (case lv of
        [] \<Rightarrow> False
      | l0 # _ \<Rightarrow>
          if Owner l0 = RunningIntentName \<and> length lv = 1 then False
          else shouldDelete_loop lv)"

text \<open>
  The scan of \<open>LeafVariants.GetHighestPrecedence\<close>: one step of the \<open>for\<close> loop on the pair
  (highest, secondHighest), \<open>None\<close> for a nil pointer.
\<close>

fun scan_step :: "leafEntry option \<times> leafEntry option \<Rightarrow> leafEntry \<Rightarrow>
    leafEntry option \<times> leafEntry option" where
  "scan_step (None, secondHighest) e = (Some e, secondHighest)"
| "scan_step (Some highest, secondHighest) e =
     (if Priority highest > Priority e then (Some e, Some highest)
      else (case secondHighest of
              None \<Rightarrow> (Some highest, Some e)
            | Some s \<Rightarrow> if Priority s > Priority e then (Some highest, Some e)
                        else (Some highest, Some s)))"

definition scan :: "LeafVariants \<Rightarrow> leafEntry option \<times> leafEntry option" where
  "scan lv = foldl scan_step (None, None) lv"

definition GetHighestPrecedence :: "bool \<Rightarrow> LeafVariants \<Rightarrow> leafEntry option" where
  "GetHighestPrecedence onlyIfPrioChanged lv =
     (if length lv = 0 then None
      else if shouldDelete lv then None
      else (case scan lv of
              (None, _) \<Rightarrow> None
            | (Some highest, secondHighest) \<Rightarrow>
                if \<not> onlyIfPrioChanged then
                  (if \<not> Delete highest then Some highest else secondHighest)
                else if \<not> Delete highest then
                  (if IsNew highest \<or> IsUpdated highest then Some highest else None)
                else (case secondHighest of
                        None \<Rightarrow> None
                      | Some s \<Rightarrow> if \<not> Delete s then Some s else None)))"

text \<open>\<open>LeafVariants.GetByOwner\<close>: the first variant of the owner.\<close>

fun GetByOwner :: "LeafVariants \<Rightarrow> string \<Rightarrow> leafEntry option" where
  "GetByOwner [] ow = None"
| "GetByOwner (e # es) ow = (if Owner e = ow then Some e else GetByOwner es ow)"

subsection \<open>The precedence rules in the spec's words\<close>

text \<open>
  The variant with the lowest priority value of a list, the earlier one on a tie: the first
  variant whose priority no variant of the list undercuts.
\<close>

definition lowest_priority_variant :: "LeafVariants \<Rightarrow> leafEntry option" where
  "lowest_priority_variant lv = find (\<lambda>e. \<forall>x \<in> set lv. Priority e \<le> Priority x) lv"

text \<open>The second-lowest variant: the lowest one of the others.\<close>

definition second_lowest_variant :: "LeafVariants \<Rightarrow> leafEntry option" where
  "second_lowest_variant lv =
     (case lowest_priority_variant lv of
        None \<Rightarrow> None
      | Some t \<Rightarrow> lowest_priority_variant (remove1 t lv))"

text \<open>The lowest-priority variant among those not marked delete.\<close>

definition lowest_live_variant :: "LeafVariants \<Rightarrow> leafEntry option" where
  "lowest_live_variant lv = lowest_priority_variant (filter (\<lambda>e. \<not> Delete e) lv)"

text \<open>Whether the two lowest variants are both marked delete.\<close>

definition two_lowest_deleted :: "LeafVariants \<Rightarrow> bool" where
  "two_lowest_deleted lv =
     (case (lowest_priority_variant lv, second_lowest_variant lv) of
        (Some t, Some s) \<Rightarrow> Delete t \<and> Delete s
      | _ \<Rightarrow> False)"

text \<open>
  The result of \<open>GetHighestPrecedence(true)\<close> in the spec's words (4.2, step 4): the top
  variant if it is not marked delete and is new or updated; the second one if the top one is
  marked delete and the second one is not; none otherwise.
\<close>

definition changed_precedence :: "LeafVariants \<Rightarrow> leafEntry option" where
  "changed_precedence lv =
     (case lowest_priority_variant lv of
        None \<Rightarrow> None
      | Some t \<Rightarrow>
          if \<not> Delete t then (if IsNew t \<or> IsUpdated t then Some t else None)
          else (case second_lowest_variant lv of
                  None \<Rightarrow> None
                | Some second \<Rightarrow> if \<not> Delete second then Some second else None))"

section \<open>Tree entries (pkg/tree/entry.go)\<close>

text \<open>
  The schema element of an entry. \<open>sdcpb.SchemaElem\<close> is a protobuf message of another
  repository with the alternatives container, field and leaf-list, or none of them set; of a
  container the tree reads the key names and the presence flag.
\<close>

record containerSchema =
  Keys :: "string list"
  IsPresence :: bool
  MandatoryChildren :: "string list"

datatype schemaElem =
    SchemaElem_Container containerSchema
  | SchemaElem_Field
  | SchemaElem_Leaflist
  | SchemaElem_unset

text \<open>\<open>SchemaElem.GetContainer()\<close>: nil unless the element is a container.\<close>

fun GetContainer :: "schemaElem \<Rightarrow> containerSchema option" where
  "GetContainer (SchemaElem_Container c) = Some c"
| "GetContainer _ = None"

text \<open>
  Modelled from the spec: the type \<open>choiceCasesResolvers\<close> is not part of the sources at
  hand. A resolver stands here for what the tree asks of it once the insertion phase is over
  (spec 4.4): the name of the old best case, the name of the best case (the empty string for
  none) and the element names of all cases other than the best one.
\<close>

record choiceCasesResolver =
  OldBestCaseName :: string
  BestCaseName :: string
  SkipElements :: "string list"

text \<open>
  \<open>sharedEntryAttributes\<close>. The map \<open>childs\<close> is the list of the children, each under its
  own \<open>pathElemName\<close> (the key \<open>AddChild\<close> stores it under), and a loop over the map visits
  them in the order of the list. The \<open>parent\<close> pointer is the position in the tree: a
  function that reads it takes the chain of ancestors as an argument.
\<close>

datatype entry = Entry
  (pathElemName: string)
  (childs: "entry list")
  (leafVariants: LeafVariants)
  (schema: "schemaElem option")
  (choicesResolvers: "choiceCasesResolver list")

text \<open>\<open>s.childs[n]\<close> with the comma-ok form: the child stored under the name.\<close>

definition child :: "entry list \<Rightarrow> string \<Rightarrow> entry option" where
  "child cs n = find (\<lambda>c. pathElemName c = n) cs"

text \<open>
  \<open>sharedEntryAttributes.ShouldDelete\<close>; the loop over the children leaves with false at
  the first child that is not to be deleted.
\<close>

fun ShouldDelete :: "entry \<Rightarrow> bool" where
  "ShouldDelete (Entry n cs lv sch crs) =
     (if length lv > 0 then shouldDelete lv else list_all ShouldDelete cs)"

subsection \<open>Deletion of a node in the spec's words\<close>

text \<open>Every variant whose owner is not the reserved owner has its delete flag set.\<close>

definition all_non_running_deleted :: "LeafVariants \<Rightarrow> bool" where
  "all_non_running_deleted lv = list_all (\<lambda>l. Owner l \<noteq> RunningIntentName \<longrightarrow> Delete l) lv"

text \<open>
  The condition of the spec (3, invariants per node): the node has leaf variants and every
  non-running one is marked delete, or it has none and every child is to be deleted.
\<close>

definition ShouldDelete_spec :: "entry \<Rightarrow> bool" where
  "ShouldDelete_spec n =
     ((leafVariants n \<noteq> [] \<and> all_non_running_deleted (leafVariants n)) \<or>
      (leafVariants n = [] \<and> list_all ShouldDelete (childs n)))"

text \<open>The variants are a single variant of the reserved owner.\<close>

definition only_running :: "LeafVariants \<Rightarrow> bool" where
  "only_running lv = (case lv of [l] \<Rightarrow> Owner l = RunningIntentName | _ \<Rightarrow> False)"

subsection \<open>Concrete variants and nodes\<close>

definition mk_update :: "string list \<Rightarrow> 8 word list \<Rightarrow> int \<Rightarrow> string \<Rightarrow> update" where
  "mk_update p v pr ow = \<lparr>path = p, val = v, priority = pr, owner = ow, ts = 0\<rparr>"

definition mk_leaf :: "string \<Rightarrow> int \<Rightarrow> 8 word list \<Rightarrow> bool \<Rightarrow> bool \<Rightarrow> bool \<Rightarrow> leafEntry" where
  "mk_leaf ow pr v isnew del upd =
     \<lparr>Update = mk_update [''interface'', ''eth0'', ''mtu''] v pr ow,
      IsNew = isnew, Delete = del, IsUpdated = upd\<rparr>"

text \<open>Three owners on one leaf, the two strongest marked delete.\<close>

definition two_deleted_variants :: LeafVariants where
  "two_deleted_variants =
     [mk_leaf ''a'' 1 [1] False True False,
      mk_leaf ''b'' 2 [2] False True False,
      mk_leaf ''c'' 3 [3] False False False]"

text \<open>The strongest owner withdraws, the next one takes over.\<close>

definition fallback_variants :: LeafVariants where
  "fallback_variants =
     [mk_leaf ''a'' 10 [1] False False False,
      mk_leaf ''b'' 5 [2] False True False]"

text \<open>A new variant of the strongest owner.\<close>

definition new_variants :: LeafVariants where
  "new_variants =
     [mk_leaf ''a'' 10 [1] False False False,
      mk_leaf ''b'' 5 [2] True False False]"

text \<open>A leaf that only the running configuration holds.\<close>

definition running_leaf :: entry where
  "running_leaf =
     Entry ''mtu'' [] [mk_leaf ''running'' 100 [1] False False False] (Some SchemaElem_Field) []"

text \<open>A leaf whose only intent is withdrawn, next to the running configuration.\<close>

definition withdrawn_leaf :: entry where
  "withdrawn_leaf =
     Entry ''mtu'' []
       [mk_leaf ''running'' 100 [1] False False False, mk_leaf ''a'' 10 [2] False True False]
       (Some SchemaElem_Field) []"

subsection \<open>Errors and panics\<close>

text \<open>
  What a call can end with other than its result: a Go panic (a nil dereference, an index or
  slice bound out of range) or an error value. The error values are named after their
  message or their variable; \<open>ExternalError\<close> is an error handed up from a client outside
  the sources at hand (schema, cache, southbound, protobuf).
\<close>

datatype error =
    PanicNilPointer
  | PanicOutOfRange
  | ErrHoldsLeafs
  | ErrDivergingPath
  | ErrChildDoesNotExist
  | ErrIntentNotFound
  | ErrResourceExhausted
  | ErrMissingCandidateName
  | ErrCumulatedValidation "string list"
  | ErrFailedUpdatingIntended error
  | ErrFailedUpdatingRunning error
  | ExternalError string

subsection \<open>Ancestors, paths and the ancestor schema\<close>

text \<open>
  The chain of parents of an entry, the nearest first and the root last, each with its name
  and its schema. The root has no parent: its chain is empty.
\<close>

type_synonym ancestor = "string \<times> schemaElem option"

text \<open>
  \<open>Path()\<close> of the entry named \<open>n\<close> below the chain: the empty path for the root, the
  parent's path extended by the entry's name otherwise.
\<close>

fun Path :: "ancestor list \<Rightarrow> string \<Rightarrow> string list" where
  "Path [] n = []"
| "Path (a # as) n = Path as (fst a) @ [n]"

text \<open>
  \<open>sharedEntryAttributes.GetAncestorSchema\<close> of an entry below the chain. The parent of
  the children of the root is the root's \<open>sharedEntryAttributes\<close>, so this method (not the
  one of \<open>RootEntry\<close>) runs on the root too, where \<open>s.parent\<close> is nil and the call panics.
\<close>

fun GetAncestorSchema :: "ancestor list \<Rightarrow> error + (schemaElem option \<times> nat)" where
  "GetAncestorSchema [] = Inl PanicNilPointer"
| "GetAncestorSchema (a # as) =
     (case snd a of
        Some sch \<Rightarrow> Inr (Some sch, 1)
      | None \<Rightarrow>
          (case GetAncestorSchema as of
             Inl e \<Rightarrow> Inl e
           | Inr (sch, level) \<Rightarrow> Inr (sch, level + 1)))"

text \<open>The chain of a child of the entry \<open>e\<close> that lies below \<open>anc\<close>.\<close>

definition below :: "ancestor list \<Rightarrow> entry \<Rightarrow> ancestor list" where
  "below anc e = (pathElemName e, schema e) # anc"

subsection \<open>Delete aggregation\<close>

text \<open>
  \<open>IsDeleteKeyAttributesInLevelDown\<close>: the loop clears \<open>doDelete\<close> at every key attribute
  that exists as a child and is not to be deleted.
\<close>

definition keyAttributes_step :: "entry list \<Rightarrow> bool \<Rightarrow> string \<Rightarrow> bool" where
  "keyAttributes_step cs doDelete n =
     (case child cs n of
        Some c \<Rightarrow> if \<not> ShouldDelete c then False else doDelete
      | None \<Rightarrow> doDelete)"

definition IsDeleteKeyAttributesInLevelDown ::
    "ancestor list \<Rightarrow> entry \<Rightarrow> string list \<Rightarrow> string list list \<Rightarrow> string list list" where
  "IsDeleteKeyAttributesInLevelDown anc s keyAttributes result =
     (let doDelete = foldl (keyAttributes_step (childs s)) True keyAttributes
      in if doDelete then result @ [Path anc (pathElemName s)] else result)"

text \<open>
  The first part of \<open>GetDeletes\<close>: on an entry without schema whose ancestor schema is a
  container and whose level below it equals the number of its keys, the key names; nothing
  on any other entry.
\<close>

definition keyLevel :: "ancestor list \<Rightarrow> entry \<Rightarrow> error + string list option" where
  "keyLevel anc s =
     (if schema s = None then
        (case GetAncestorSchema anc of
           Inl e \<Rightarrow> Inl e
         | Inr (sch, level) \<Rightarrow>
             (case sch of
                None \<Rightarrow> Inr None
              | Some sc \<Rightarrow>
                  (case GetContainer sc of
                     None \<Rightarrow> Inr None
                   | Some contschema \<Rightarrow>
                       if level = length (Keys contschema) then Inr (Some (Keys contschema))
                       else Inr None)))
      else Inr None)"

text \<open>
  The deletes for the choice cases that became inactive, on a container: for every resolver
  with an old and a new best case that differ, the path extended by the old best case.
\<close>

definition choiceDeletes :: "ancestor list \<Rightarrow> entry \<Rightarrow> string list list \<Rightarrow> string list list" where
  "choiceDeletes anc s deletes =
     (case schema s of
        Some (SchemaElem_Container _) \<Rightarrow>
          foldl (\<lambda>ds v.
                   if OldBestCaseName v \<noteq> [] \<and> BestCaseName v \<noteq> [] \<and>
                      OldBestCaseName v \<noteq> BestCaseName v
                   then ds @ [Path anc (pathElemName s) @ [OldBestCaseName v]] else ds)
                deletes (choicesResolvers s)
      | _ \<Rightarrow> deletes)"

text \<open>
  \<open>sharedEntryAttributes.GetDeletes\<close>, with the loop over the children as a second
  function.
\<close>

fun GetDeletes :: "ancestor list \<Rightarrow> entry \<Rightarrow> string list list \<Rightarrow> error + string list list"
  and GetDeletes_childs ::
    "ancestor list \<Rightarrow> entry list \<Rightarrow> string list list \<Rightarrow> error + string list list" where
  "GetDeletes anc (Entry n cs lv sch crs) deletes =
     (case keyLevel anc (Entry n cs lv sch crs) of
        Inl e \<Rightarrow> Inl e
      | Inr (Some keys) \<Rightarrow>
          (let preCountDeletes = length deletes;
               deletes' = IsDeleteKeyAttributesInLevelDown anc (Entry n cs lv sch crs) keys deletes
           in if length deletes' = preCountDeletes
              then GetDeletes_childs ((n, sch) # anc) cs deletes'
              else Inr deletes')
      | Inr None \<Rightarrow>
          (let deletes' = choiceDeletes anc (Entry n cs lv sch crs) deletes
           in if shouldDelete lv then
                (case lv of
                   [] \<Rightarrow> Inl PanicOutOfRange
                 | l0 # _ \<Rightarrow> Inr (deletes' @ [GetPath l0]))
              else GetDeletes_childs ((n, sch) # anc) cs deletes'))"
| "GetDeletes_childs anc [] deletes = Inr deletes"
| "GetDeletes_childs anc (c # cs) deletes =
     (case GetDeletes anc c deletes of
        Inl e \<Rightarrow> Inl e
      | Inr deletes' \<Rightarrow> GetDeletes_childs anc cs deletes')"

text \<open>\<open>RootEntry.GetDeletes\<close>.\<close>

definition RootEntry_GetDeletes :: "entry \<Rightarrow> error + string list list" where
  "RootEntry_GetDeletes r = GetDeletes [] r []"

subsection \<open>The spec's scenario C\<close>

text \<open>
  Owner a held \<open>/interface[name=eth1]/{mtu, description}\<close> and issues an empty intent: its
  variants, the key leaf included, are marked delete.
\<close>

definition leaf_of :: "string list \<Rightarrow> string \<Rightarrow> int \<Rightarrow> 8 word list \<Rightarrow> bool \<Rightarrow> leafEntry" where
  "leaf_of p ow pr v del =
     \<lparr>Update = mk_update p v pr ow, IsNew = False, Delete = del, IsUpdated = False\<rparr>"

definition interface_schema :: schemaElem where
  "interface_schema =
     SchemaElem_Container \<lparr>Keys = [''name''], IsPresence = False, MandatoryChildren = []\<rparr>"

definition root_schema :: schemaElem where
  "root_schema = SchemaElem_Container \<lparr>Keys = [], IsPresence = False, MandatoryChildren = []\<rparr>"

definition eth1 :: "bool \<Rightarrow> entry" where
  "eth1 del =
     Entry ''eth1''
       [Entry ''name'' [] [leaf_of [''interface'', ''eth1'', ''name''] ''a'' 10 [1] del]
          (Some SchemaElem_Field) [],
        Entry ''mtu'' [] [leaf_of [''interface'', ''eth1'', ''mtu''] ''a'' 10 [2] True]
          (Some SchemaElem_Field) [],
        Entry ''description'' []
          [leaf_of [''interface'', ''eth1'', ''description''] ''a'' 10 [3] True]
          (Some SchemaElem_Field) []]
       [] None []"

definition interface_chain :: "ancestor list" where
  "interface_chain = [(''interface'', Some interface_schema), ([], Some root_schema)]"

definition scenario_C :: entry where
  "scenario_C =
     Entry [] [Entry ''interface'' [eth1 True] [] (Some interface_schema) []] []
       (Some root_schema) []"

subsection \<open>Adding a child\<close>

text \<open>
  The type assertion \<open>s.schema.Schema.(*sdcpb.SchemaElem_Container)\<close> in its comma-ok form:
  the container and true, or a nil pointer and false.
\<close>

definition container_assertion :: "schemaElem \<Rightarrow> containerSchema option \<times> bool" where
  "container_assertion sc =
     (case sc of SchemaElem_Container c \<Rightarrow> (Some c, True) | _ \<Rightarrow> (None, False))"

text \<open>
  The first \<open>if\<close> of \<open>AddChild\<close>, "make sure Entry should not only hold LeafEntries": the
  error or panic it ends with, if any. \<open>s.schema.Schema\<close> dereferences the schema, and the
  right operand of \<open>!is_container && !contSchema.Container.IsPresence\<close> is evaluated, and
  dereferences \<open>contSchema\<close>, when the left one holds.
\<close>

definition holdsLeafs :: "entry \<Rightarrow> error option" where
  "holdsLeafs s =
     (if length (leafVariants s) > 0 then
        (case schema s of
           None \<Rightarrow> Some PanicNilPointer
         | Some sc \<Rightarrow>
             (case container_assertion sc of
                (contSchema, is_container) \<Rightarrow>
                  if \<not> is_container then
                    (case contSchema of
                       None \<Rightarrow> Some PanicNilPointer
                     | Some c \<Rightarrow> if \<not> IsPresence c then Some ErrHoldsLeafs else None)
                  else None))
      else None)"

text \<open>\<open>s.childs[e.PathName()] = e\<close>: in place of the child of that name, or as a new child.\<close>

fun put_child :: "entry list \<Rightarrow> entry \<Rightarrow> entry list" where
  "put_child [] e = [e]"
| "put_child (c # cs) e =
     (if pathElemName c = pathElemName e then e # cs else c # put_child cs e)"

definition set_childs :: "entry \<Rightarrow> entry list \<Rightarrow> entry" where
  "set_childs s cs = Entry (pathElemName s) cs (leafVariants s) (schema s) (choicesResolvers s)"

definition set_leafVariants :: "entry \<Rightarrow> LeafVariants \<Rightarrow> entry" where
  "set_leafVariants s lv = Entry (pathElemName s) (childs s) lv (schema s) (choicesResolvers s)"

text \<open>
  \<open>sharedEntryAttributes.AddChild\<close> on the entry \<open>s\<close> with \<open>s.Path() = sPath\<close> and the child
  \<open>e\<close> with \<open>e.Path() = ePath\<close>: the entry afterwards and the error. The slice expression
  \<open>e.Path()[:len(e.Path())-1]\<close> panics on an empty path.
\<close>

definition AddChild :: "string list \<Rightarrow> entry \<Rightarrow> string list \<Rightarrow> entry \<Rightarrow> entry \<times> error option" where
  "AddChild sPath s ePath e =
     (case holdsLeafs s of
        Some err \<Rightarrow> (s, Some err)
      | None \<Rightarrow>
          if length ePath = 0 then (s, Some PanicOutOfRange)
          else if sPath \<noteq> take (length ePath - 1) ePath then (s, Some ErrDivergingPath)
          else (set_childs s (put_child (childs s) e), None))"

text \<open>The error condition of \<open>AddChild\<close> in the spec's words (4.1).\<close>

definition isPresenceContainer :: "schemaElem option \<Rightarrow> bool" where
  "isPresenceContainer sch =
     (case sch of Some (SchemaElem_Container c) \<Rightarrow> IsPresence c | _ \<Rightarrow> False)"

definition AddChild_must_fail :: "string list \<Rightarrow> entry \<Rightarrow> string list \<Rightarrow> bool" where
  "AddChild_must_fail sPath s ePath =
     ((leafVariants s \<noteq> [] \<and> \<not> isPresenceContainer (schema s)) \<or>
      (\<forall>n. ePath \<noteq> sPath @ [n]))"

subsection \<open>Inserting an update\<close>

text \<open>
  The clients behind the \<open>TreeContext\<close>, outside the sources at hand: the schema client
  (\<open>treeSchemaCacheClient.GetSchema\<close>, answering with a schema element, possibly nil, or an
  error), the construction of the choice resolvers of a schema
  (\<open>initChoiceCasesResolvers\<close> builds them with \<open>AddChoice\<close> and \<open>AddCase\<close>) and the read of
  the running configuration (\<open>ReadRunning\<close>, answering with an update, nil, or an error).
\<close>

record treeContext =
  GetSchema :: "string list \<Rightarrow> error + schemaElem option"
  newChoiceCasesResolvers :: "schemaElem \<Rightarrow> choiceCasesResolver list"
  ReadRunning :: "string list \<Rightarrow> error + update option"

text \<open>
  Modelled from the spec: the methods of \<open>LeafEntry\<close> and \<open>cache.Update\<close> that the insertion
  calls are not part of the sources at hand. The spec (4.1, 6.2): the equality "ignores the
  path" and the timestamp; an update of another value "sets it to the new value and marks
  updated=true, delete=false"; a new variant is "marked new=isNew"; \<open>MarkDelete\<close> sets the
  delete flag.
\<close>

definition EqualSkipPath :: "leafEntry \<Rightarrow> update \<Rightarrow> bool" where
  "EqualSkipPath l c \<longleftrightarrow>
     val (Update l) = val c \<and> priority (Update l) = priority c \<and> owner (Update l) = owner c"

definition MarkUpdate :: "leafEntry \<Rightarrow> update \<Rightarrow> leafEntry" where
  "MarkUpdate l c = l\<lparr>Update := c, IsUpdated := True, Delete := False\<rparr>"

definition NewLeafEntry :: "update \<Rightarrow> bool \<Rightarrow> leafEntry" where
  "NewLeafEntry c new = \<lparr>Update = c, IsNew = new, Delete = False, IsUpdated = False\<rparr>"

definition MarkDelete :: "leafEntry \<Rightarrow> leafEntry" where
  "MarkDelete l = l\<lparr>Delete := True\<rparr>"

text \<open>A write through the pointer that \<open>GetByOwner\<close> returned: to the first variant of the owner.\<close>

fun update_by_owner :: "(leafEntry \<Rightarrow> leafEntry) \<Rightarrow> string \<Rightarrow> LeafVariants \<Rightarrow> LeafVariants" where
  "update_by_owner f ow [] = []"
| "update_by_owner f ow (e # es) =
     (if Owner e = ow then f e # es else e # update_by_owner f ow es)"

text \<open>The end of the path in \<open>AddCacheUpdateRecursive\<close>: the leaf variants afterwards.\<close>

definition addLeafEntry :: "LeafVariants \<Rightarrow> update \<Rightarrow> bool \<Rightarrow> LeafVariants" where
  "addLeafEntry lv c new =
     (case GetByOwner lv (owner c) of
        Some leafVariant \<Rightarrow>
          if EqualSkipPath leafVariant c
          then update_by_owner (\<lambda>l. l\<lparr>Delete := False\<rparr>) (owner c) lv
          else update_by_owner (\<lambda>l. MarkUpdate l c) (owner c) lv
      | None \<Rightarrow> lv @ [NewLeafEntry c new])"

text \<open>
  \<open>newSharedEntryAttributes\<close> for the entry \<open>name\<close> below the chain \<open>anc\<close> (empty for the
  root): no schema is fetched on a key level, that is when the ancestor schema is a
  container with at least \<open>levelUp\<close> keys.
\<close>

definition needsSchema :: "ancestor list \<Rightarrow> error + bool" where
  "needsSchema anc =
     (if anc = [] then Inr True
      else (case GetAncestorSchema anc of
              Inl e \<Rightarrow> Inl e
            | Inr (ancesterschema, levelUp) \<Rightarrow>
                (case ancesterschema of
                   Some (SchemaElem_Container c) \<Rightarrow>
                     if length (Keys c) \<ge> levelUp then Inr False else Inr True
                 | _ \<Rightarrow> Inr True)))"

text \<open>
  The new entry with \<open>initChoiceCasesResolvers\<close> applied: no resolvers without a schema, and
  those of the choices of the schema otherwise, which only a container has.
\<close>

definition fresh_entry :: "treeContext \<Rightarrow> string \<Rightarrow> schemaElem option \<Rightarrow> entry" where
  "fresh_entry tc name sch =
     Entry name [] [] sch
       (case sch of
          Some (SchemaElem_Container c) \<Rightarrow> newChoiceCasesResolvers tc (SchemaElem_Container c)
        | _ \<Rightarrow> [])"

definition newSharedEntryAttributes :: "treeContext \<Rightarrow> ancestor list \<Rightarrow> string \<Rightarrow> error + entry" where
  "newSharedEntryAttributes tc anc name =
     (case needsSchema anc of
        Inl e \<Rightarrow> Inl e
      | Inr getSchema \<Rightarrow>
          if getSchema then
            (case GetSchema tc (Path anc name) of
               Inl err \<Rightarrow> Inl err
             | Inr sch \<Rightarrow> Inr (fresh_entry tc name sch))
          else Inr (fresh_entry tc name None))"

text \<open>
  \<open>newEntry\<close> below the entry \<open>parent\<close>, which lies below \<open>anc\<close>: the parent afterwards, and
  the new entry or the error.
\<close>

definition newEntry :: "treeContext \<Rightarrow> ancestor list \<Rightarrow> entry \<Rightarrow> string \<Rightarrow> entry \<times> (error + entry)" where
  "newEntry tc anc parent pathElemName' =
     (case newSharedEntryAttributes tc (below anc parent) pathElemName' of
        Inl err \<Rightarrow> (parent, Inl err)
      | Inr e \<Rightarrow>
          (case AddChild (Path anc (pathElemName parent)) parent
                  (Path (below anc parent) pathElemName') e of
             (parent', Some err) \<Rightarrow> (parent', Inl err)
           | (parent', None) \<Rightarrow> (parent', Inr e)))"

text \<open>\<open>GetLevel\<close>: the length of the path.\<close>

definition GetLevel :: "ancestor list \<Rightarrow> entry \<Rightarrow> nat" where
  "GetLevel anc s = length (Path anc (pathElemName s))"

text \<open>
  \<open>AddCacheUpdateRecursive\<close> on the entry \<open>r\<close> below \<open>anc\<close>: the entry afterwards and the
  error. A child is a pointer: what the call on the child changes is seen from \<open>r\<close>, also
  when the call ends with an error.
\<close>

function AddCacheUpdateRecursive ::
    "treeContext \<Rightarrow> ancestor list \<Rightarrow> entry \<Rightarrow> update \<Rightarrow> bool \<Rightarrow> entry \<times> error option" where
  "AddCacheUpdateRecursive tc anc r c new =
     (let idx = (if anc \<noteq> [] then GetLevel anc r else 0) in
      if idx = length (path c) then
        (set_leafVariants r (addLeafEntry (leafVariants r) c new), None)
      else if idx > length (path c) then (r, Some PanicOutOfRange)
      else
        (case child (childs r) (path c ! idx) of
           Some e \<Rightarrow>
             (case AddCacheUpdateRecursive tc (below anc r) e c new of
                (e', err) \<Rightarrow> (set_childs r (put_child (childs r) e'), err))
         | None \<Rightarrow>
             (case newEntry tc anc r (path c ! idx) of
                (r', Inl err) \<Rightarrow> (r', Some err)
              | (r', Inr e) \<Rightarrow>
                  (case AddCacheUpdateRecursive tc (below anc r') e c new of
                     (e', err) \<Rightarrow> (set_childs r' (put_child (childs r') e'), err)))))"
  by pat_completeness auto

termination
proof (relation "measure (\<lambda>(tc, anc, r, c, new). length (path c) - length anc)")
  have len: "length (Path anc n) = length anc" for anc :: "ancestor list" and n
    by (induction anc arbitrary: n) auto
  show "wf (measure (\<lambda>(tc, anc, r, c, new). length (path c) - length anc))" by simp
  show "((tc, below anc r, e, c, new), tc, anc, r, c, new)
        \<in> measure (\<lambda>(tc, anc, r, c, new). length (path c) - length anc)"
    if "idx = (if anc \<noteq> [] then GetLevel anc r else 0)" "idx \<noteq> length (path c)"
      "\<not> length (path c) < idx"
    for tc anc r c new idx e
    using that by (cases "anc = []") (auto simp: below_def GetLevel_def len)
  show "((tc, below anc r', e, c, new), tc, anc, r, c, new)
        \<in> measure (\<lambda>(tc, anc, r, c, new). length (path c) - length anc)"
    if "idx = (if anc \<noteq> [] then GetLevel anc r else 0)" "idx \<noteq> length (path c)"
      "\<not> length (path c) < idx"
    for tc anc r c new idx r' e
    using that by (cases "anc = []") (auto simp: below_def GetLevel_def len)
qed

subsection \<open>Concrete entries for adding and inserting\<close>

text \<open>A container that is no presence container and yet holds a leaf variant.\<close>

definition system_schema :: schemaElem where
  "system_schema =
     SchemaElem_Container \<lparr>Keys = [], IsPresence = False, MandatoryChildren = []\<rparr>"

definition system_entry :: entry where
  "system_entry =
     Entry ''system'' [] [leaf_of [''system''] ''a'' 10 [1] False] (Some system_schema) []"

text \<open>A leaf with a variant.\<close>

definition hostname_leaf :: entry where
  "hostname_leaf =
     Entry ''hostname'' [] [leaf_of [''system'', ''hostname''] ''a'' 10 [1] False]
       (Some SchemaElem_Field) []"

definition domain_entry :: entry where
  "domain_entry = Entry ''domain'' [] [] (Some SchemaElem_Field) []"

text \<open>A schema client that knows containers only, and an empty running configuration.\<close>

definition plain_context :: treeContext where
  "plain_context =
     \<lparr>GetSchema = (\<lambda>p. Inr (Some root_schema)),
      newChoiceCasesResolvers = (\<lambda>sc. []),
      ReadRunning = (\<lambda>p. Inr None)\<rparr>"



subsection \<open>Navigation\<close>

text \<open>
  An \<open>Entry\<close> that \<open>Navigate\<close> holds or returns is a pointer into the tree. It is the list
  of the names from the root down to the entry, which is also what \<open>Path()\<close> returns for
  it; the parent is the list without its last name, and the root, which has no parent, is
  the empty list.
\<close>

type_synonym entryRef = "string list"

fun node_at :: "entry \<Rightarrow> entryRef \<Rightarrow> entry option" where
  "node_at r [] = Some r"
| "node_at r (n # p) = (case child (childs r) n of None \<Rightarrow> None | Some c \<Rightarrow> node_at c p)"

text \<open>
  Modelled from the spec: \<open>choiceCasesResolvers.GetSkipElements\<close> is not part of the sources
  at hand; the skip set is the union of the element names of all cases other than the best
  one (spec 4.4).
\<close>

definition GetSkipElements :: "choiceCasesResolver list \<Rightarrow> string list" where
  "GetSkipElements crs = concat (map SkipElements crs)"

definition filterActiveChoiceCaseChilds :: "entry \<Rightarrow> entry list" where
  "filterActiveChoiceCaseChilds s =
     (if schema s = None then childs s
      else (let skipAttributesList = GetSkipElements (choicesResolvers s)
            in filter (\<lambda>c. pathElemName c \<notin> set skipAttributesList) (childs s)))"

text \<open>
  \<open>tryLoading\<close> on the entry \<open>s\<close> of the tree \<open>root\<close>: the tree afterwards, and the error or
  the child \<open>s.childs[path[0]]\<close>, nil if there is none.
\<close>

definition tryLoading ::
    "treeContext \<Rightarrow> entry \<Rightarrow> entryRef \<Rightarrow> string list \<Rightarrow> entry \<times> (error + entryRef option)" where
  "tryLoading tc root s path' =
     (case ReadRunning tc (s @ path') of
        Inl err \<Rightarrow> (root, Inl err)
      | Inr None \<Rightarrow>
          (case path' of
             [] \<Rightarrow> (root, Inl PanicOutOfRange)
           | p0 # _ \<Rightarrow> (root, Inl ErrChildDoesNotExist))
      | Inr (Some upd) \<Rightarrow>
          (case AddCacheUpdateRecursive tc [] root upd False of
             (root', Some err) \<Rightarrow> (root', Inl err)
           | (root', None) \<Rightarrow>
               (case path' of
                  [] \<Rightarrow> (root', Inl PanicOutOfRange)
                | p0 # _ \<Rightarrow>
                    (case node_at root' (s @ [p0]) of
                       None \<Rightarrow> (root', Inr None)
                     | Some _ \<Rightarrow> (root', Inr (Some (s @ [p0])))))))"

text \<open>
  \<open>sharedEntryAttributes.Navigate\<close> on the entry \<open>s\<close> of the tree \<open>root\<close>, and its \<open>for\<close>
  loop with the loop variables \<open>cont\<close> and \<open>idx\<close>: the tree afterwards, and the error or the
  entry found. A method call on a nil \<open>Entry\<close> (the parent of the root, a child that
  \<open>tryLoading\<close> did not find) panics.
\<close>

function Navigate ::
    "treeContext \<Rightarrow> entry \<Rightarrow> entryRef \<Rightarrow> string list \<Rightarrow> entry \<times> (error + entryRef)"
  and Navigate_loop ::
    "treeContext \<Rightarrow> entry \<Rightarrow> entryRef \<Rightarrow> string list \<Rightarrow> bool \<Rightarrow> nat \<Rightarrow>
       entry \<times> (error + entryRef)" where
  "Navigate tc root s path' =
     (if length path' = 0 then (root, Inr s)
      else Navigate_loop tc root s path' False 0)"
| "Navigate_loop tc root s path' cont idx =
     (if cont then
        (if idx \<ge> length path' then (root, Inl PanicOutOfRange)
         else if path' ! idx = ''.'' then Navigate_loop tc root s path' True (idx + 1)
         else if path' ! idx = ''..'' then
           (if s = [] then (root, Inl PanicNilPointer)
            else Navigate tc root (butlast s) (tl path'))
         else
           (case node_at root s of
              None \<Rightarrow> (root, Inl PanicNilPointer)
            | Some sn \<Rightarrow>
                (case child (filterActiveChoiceCaseChilds sn) (path' ! 0) of
                   Some e \<Rightarrow> Navigate tc root (s @ [path' ! 0]) (tl path')
                 | None \<Rightarrow>
                     (case tryLoading tc root s path' of
                        (root', Inl err) \<Rightarrow> (root', Inl err)
                      | (root', Inr None) \<Rightarrow> (root', Inl PanicNilPointer)
                      | (root', Inr (Some e)) \<Rightarrow> Navigate tc root' e (tl path')))))
      else (root, Inl ErrChildDoesNotExist))"
  by pat_completeness auto
termination
  by (relation "(\<lambda>x. case x of Inl (tc, root, s, p) \<Rightarrow> length p
                              | Inr (tc, root, s, p, cont, idx) \<Rightarrow> length p)
                <*mlex*>
                measure (\<lambda>x. case x of Inl (tc, root, s, p) \<Rightarrow> length p + 2
                              | Inr (tc, root, s, p, cont, idx) \<Rightarrow> length p + 1 - idx)")
     (auto simp: wf_mlex mlex_less mlex_leq)

text \<open>A tree with one child below the root.\<close>

definition interface_root :: entry where
  "interface_root =
     Entry [] [Entry ''interface'' [] [] (Some interface_schema) []] [] (Some root_schema) []"

section \<open>The intent transaction (pkg/datastore)\<close>

subsection \<open>Requests\<close>

text \<open>
  The protobuf messages of the requests, as far as the datastore reads them:
  \<open>sdcpb.TypedValue\<close>, \<open>sdcpb.Update\<close>, \<open>sdcpb.SetIntentRequest\<close> and
  \<open>sdcpb.SetDataRequest\<close>. A path is the list of its elements.
\<close>

datatype typedValue =
    TypedValue_BytesVal "8 word list"
  | TypedValue_StringVal string
  | TypedValue_JsonVal "8 word list"

text \<open>\<open>TypedValue.GetBytesVal()\<close>: nil unless the value is a bytes value.\<close>

fun GetBytesVal :: "typedValue \<Rightarrow> 8 word list" where
  "GetBytesVal (TypedValue_BytesVal b) = b"
| "GetBytesVal _ = []"

record sdcpbUpdate =
  UpdatePath :: "string list"
  UpdateValue :: typedValue

record setIntentRequest =
  ReqName :: string
  ReqIntent :: string
  ReqPriority :: int
  ReqUpdate :: "sdcpbUpdate list"
  ReqDelete :: bool

record setDataRequest =
  SetName :: string
  SetDatastore :: string
  SetUpdate :: "sdcpbUpdate list"
  SetDelete :: "string list list"

subsection \<open>The cache and the state of a datastore\<close>

text \<open>
  Modelled from the spec: the cache client (package pkg/cache) is not part of the sources at
  hand. The spec (6.2) scopes every operation by the store, the owner and the priority, and
  names \<open>Read(paths)\<close>, returning the updates found, and \<open>Modify(deletes, updates)\<close>, atomic
  per call. The content of the cache of one device is a map from the scope and the path to
  the update; a delete removes the branch below its path, as the deletes of the tree are
  meant (\<open>IsDeleteKeyAttributesInLevelDown\<close>: "and thereby delete the whole branch").
\<close>

datatype store = Store_CONFIG | Store_INTENDED | Store_INTENTS

record opts =
  Store :: store
  OptsOwner :: string
  OptsPriority :: int

type_synonym cacheContent = "store \<times> string \<times> int \<times> string list \<rightharpoonup> update"

definition scoped :: "opts \<Rightarrow> string list \<Rightarrow> store \<times> string \<times> int \<times> string list" where
  "scoped o' p = (Store o', OptsOwner o', OptsPriority o', p)"

definition is_prefix :: "string list \<Rightarrow> string list \<Rightarrow> bool" where
  "is_prefix d p \<longleftrightarrow> take (length d) p = d"

definition cache_delete :: "opts \<Rightarrow> cacheContent \<Rightarrow> string list \<Rightarrow> cacheContent" where
  "cache_delete o' m d =
     (\<lambda>k. case k of (st, ow, pr, p) \<Rightarrow>
        if st = Store o' \<and> ow = OptsOwner o' \<and> pr = OptsPriority o' \<and> is_prefix d p
        then None else m k)"

definition cache_put :: "opts \<Rightarrow> cacheContent \<Rightarrow> update \<Rightarrow> cacheContent" where
  "cache_put o' m u = m(scoped o' (path u) \<mapsto> u)"

definition cache_Modify :: "cacheContent \<Rightarrow> opts \<Rightarrow> string list list \<Rightarrow> update list \<Rightarrow> cacheContent" where
  "cache_Modify m o' deletes updates =
     foldl (cache_put o') (foldl (cache_delete o') m deletes) updates"

definition cache_Read :: "cacheContent \<Rightarrow> opts \<Rightarrow> string list list \<Rightarrow> update list" where
  "cache_Read m o' paths = List.map_filter (\<lambda>p. m (scoped o' p)) paths"


text \<open>
  The state that a \<open>SetIntent\<close> call of one datastore reads and writes: the cache content,
  the candidates of the cache with the request set into each, the requests sent southbound,
  and whether \<open>intentMutex\<close> is locked.
\<close>

record datastoreState =
  cacheContent :: cacheContent
  candidates :: "(string \<times> setDataRequest list) list"
  southbound :: "setDataRequest list"
  intentMutex :: bool

subsection \<open>The collaborators of the datastore\<close>

text \<open>
  What lies outside the sources at hand and is asked for an answer: the protobuf library
  (\<open>proto.Marshal\<close>, \<open>proto.Unmarshal\<close>), the failures of the cache client, the schema and
  validation clients, the southbound target, and the parts of the tree and of the datastore
  that the sources call and do not contain. Each is a function of what the call is given.
\<close>

record deps =
  treeContextOf :: treeContext
  MarshalRequest :: "setIntentRequest \<Rightarrow> error + 8 word list"
  UnmarshalRequest :: "8 word list \<Rightarrow> error + setIntentRequest"
  MarshalValue :: "typedValue \<Rightarrow> error + 8 word list"
  UnmarshalValue :: "8 word list \<Rightarrow> error + typedValue"
  ModifyError :: "opts \<Rightarrow> error option"
  CreateCandidateError :: "string \<Rightarrow> error option"
  DeleteCandidateError :: "string \<Rightarrow> error option"
  readIntendedStoreKeysMetaError :: "error option"
  requestUpdates :: "setIntentRequest \<Rightarrow> error + update list"
  LoadIntendedStoreOwnerData :: "cacheContent \<Rightarrow> entry \<Rightarrow> string \<Rightarrow> string list list \<Rightarrow> entry"
  FinishInsertionPhase :: "cacheContent \<Rightarrow> entry \<Rightarrow> entry"
  Validate :: "cacheContent \<Rightarrow> entry \<Rightarrow> string list"
  toPath :: "string list \<Rightarrow> error + string list"
  setCandidateError :: "setDataRequest \<Rightarrow> error option"
  validateMustStatement :: "string \<Rightarrow> string list \<Rightarrow> error option"
  validateLeafRef :: "sdcpbUpdate \<Rightarrow> string \<Rightarrow> error option"
  sbiSet :: "setDataRequest \<Rightarrow> error option"
  SetIntentDelete :: "setIntentRequest \<Rightarrow> string \<Rightarrow> datastoreState \<Rightarrow> datastoreState \<times> error option"

text \<open>
  Modelled from the spec: \<open>cacheClient.Modify\<close> for the state, atomic per call: on a failure
  nothing is written.
\<close>

definition Modify ::
    "deps \<Rightarrow> datastoreState \<Rightarrow> opts \<Rightarrow> string list list \<Rightarrow> update list \<Rightarrow>
       datastoreState \<times> error option" where
  "Modify d st o' deletes updates =
     (case ModifyError d o' of
        Some err \<Rightarrow> (st, Some err)
      | None \<Rightarrow> (st\<lparr>cacheContent := cache_Modify (cacheContent st) o' deletes updates\<rparr>, None))"

text \<open>
  Modelled from the spec: \<open>cacheClient.NewUpdate\<close> and \<open>Update.Value\<close>. An update carries
  the value as bytes (spec 6.2), the serialized typed value; it is made without owner,
  priority and timestamp.
\<close>

definition NewUpdate :: "deps \<Rightarrow> string list \<Rightarrow> typedValue \<Rightarrow> error + update" where
  "NewUpdate d p tv =
     (case MarshalValue d tv of
        Inl err \<Rightarrow> Inl err
      | Inr b \<Rightarrow> Inr \<lparr>path = p, val = b, priority = 0, owner = [], ts = 0\<rparr>)"

definition Value :: "deps \<Rightarrow> update \<Rightarrow> error + typedValue" where
  "Value d u = UnmarshalValue d (val u)"

subsection \<open>Raw intents\<close>

text \<open>The verb \<open>%d\<close> of \<open>fmt.Sprintf\<close>: the decimal digits, after a minus sign if negative.\<close>

definition digit :: "nat \<Rightarrow> char" where
  "digit n = ''0123456789'' ! n"

function decimal_nat :: "nat \<Rightarrow> string" where
  "decimal_nat n = (if n < 10 then [digit n] else decimal_nat (n div 10) @ [digit (n mod 10)])"
  by pat_completeness auto
termination
  by (relation "measure id") auto

definition decimal :: "int \<Rightarrow> string" where
  "decimal i = (if i < 0 then CHR ''-'' # decimal_nat (nat (- i)) else decimal_nat (nat i))"

definition rawIntentPrefix :: string where
  "rawIntentPrefix = ''__raw_intent__''"

definition intentRawNameSep :: string where
  "intentRawNameSep = ''_''"

definition rawIntentName :: "string \<Rightarrow> int \<Rightarrow> string" where
  "rawIntentName name pr = rawIntentPrefix @ name @ intentRawNameSep @ decimal pr"

definition intents_opts :: opts where
  "intents_opts = \<lparr>Store = Store_INTENTS, OptsOwner = [], OptsPriority = 0\<rparr>"

definition saveRawIntent ::
    "deps \<Rightarrow> string \<Rightarrow> setIntentRequest \<Rightarrow> datastoreState \<Rightarrow> datastoreState \<times> error option" where
  "saveRawIntent d intentName req st =
     (case MarshalRequest d req of
        Inl err \<Rightarrow> (st, Some err)
      | Inr b \<Rightarrow>
          (let rin = rawIntentName intentName (ReqPriority req)
           in case NewUpdate d [rin] (TypedValue_BytesVal b) of
                Inl err \<Rightarrow> (st, Some err)
              | Inr upd \<Rightarrow> Modify d st intents_opts [] [upd]))"

definition getRawIntent ::
    "deps \<Rightarrow> string \<Rightarrow> int \<Rightarrow> datastoreState \<Rightarrow> error + setIntentRequest" where
  "getRawIntent d intentName priority' st =
     (let rin = rawIntentName intentName priority';
          upds = cache_Read (cacheContent st) intents_opts [[rin]]
      in case upds of
           [] \<Rightarrow> Inl ErrIntentNotFound
         | u0 # _ \<Rightarrow>
             (case Value d u0 of
                Inl err \<Rightarrow> Inl err
              | Inr v \<Rightarrow>
                  (case UnmarshalRequest d (GetBytesVal v) of
                     Inl err \<Rightarrow> Inl err
                   | Inr req \<Rightarrow> Inr req)))"

definition deleteRawIntent ::
    "deps \<Rightarrow> string \<Rightarrow> int \<Rightarrow> datastoreState \<Rightarrow> datastoreState \<times> error option" where
  "deleteRawIntent d intentName priority' st =
     Modify d st intents_opts [[rawIntentName intentName priority']] []"

subsection \<open>Reading the tree\<close>

text \<open>
  \<open>sharedEntryAttributes.GetHighestPrecedence\<close>: the update of the entry's own variants,
  then the branches of the active children; the second function is the loop over the
  children, leaving out those in the skip list of \<open>filterActiveChoiceCaseChilds\<close>.
\<close>

fun Entry_GetHighestPrecedence :: "entry \<Rightarrow> update list \<Rightarrow> bool \<Rightarrow> update list"
  and Childs_GetHighestPrecedence ::
    "string list \<Rightarrow> entry list \<Rightarrow> update list \<Rightarrow> bool \<Rightarrow> update list" where
  "Entry_GetHighestPrecedence (Entry n cs lv sch crs) result onlyNewOrUpdated =
     (let result' = (case GetHighestPrecedence onlyNewOrUpdated lv of
                       Some l \<Rightarrow> result @ [Update l]
                     | None \<Rightarrow> result)
      in Childs_GetHighestPrecedence (if sch = None then [] else GetSkipElements crs) cs
           result' onlyNewOrUpdated)"
| "Childs_GetHighestPrecedence skip [] result onlyNewOrUpdated = result"
| "Childs_GetHighestPrecedence skip (c # cs) result onlyNewOrUpdated =
     Childs_GetHighestPrecedence skip cs
       (if pathElemName c \<in> set skip then result
        else Entry_GetHighestPrecedence c result onlyNewOrUpdated)
       onlyNewOrUpdated"

definition RootEntry_GetHighestPrecedence :: "entry \<Rightarrow> bool \<Rightarrow> update list" where
  "RootEntry_GetHighestPrecedence r onlyNewOrUpdated =
     Entry_GetHighestPrecedence r [] onlyNewOrUpdated"

text \<open>\<open>sharedEntryAttributes.GetByOwner\<close>: the variants of an owner in a branch.\<close>

fun Entry_GetByOwner :: "entry \<Rightarrow> string \<Rightarrow> leafEntry list \<Rightarrow> leafEntry list"
  and Childs_GetByOwner :: "entry list \<Rightarrow> string \<Rightarrow> leafEntry list \<Rightarrow> leafEntry list" where
  "Entry_GetByOwner (Entry n cs lv sch crs) ow result =
     Childs_GetByOwner cs ow
       (case GetByOwner lv ow of Some l \<Rightarrow> result @ [l] | None \<Rightarrow> result)"
| "Childs_GetByOwner [] ow result = result"
| "Childs_GetByOwner (c # cs) ow result = Childs_GetByOwner cs ow (Entry_GetByOwner c ow result)"

text \<open>
  Modelled from the spec: the filters \<open>FilterNonDeletedButNewOrUpdated\<close> and
  \<open>FilterDeleted\<close> and \<open>LeafEntriesToCacheUpdates\<close> are not part of the sources at hand; by
  their names and the comments of their callers, the variants "skipping the ones marked for
  deletion", new or updated, and the variants "marked for deletion", each as its update.
\<close>

definition FilterNonDeletedButNewOrUpdated :: "leafEntry \<Rightarrow> bool" where
  "FilterNonDeletedButNewOrUpdated l \<longleftrightarrow> \<not> Delete l \<and> (IsNew l \<or> IsUpdated l)"

definition FilterDeleted :: "leafEntry \<Rightarrow> bool" where
  "FilterDeleted l \<longleftrightarrow> Delete l"

definition getByOwnerFiltered :: "entry \<Rightarrow> string \<Rightarrow> (leafEntry \<Rightarrow> bool) \<Rightarrow> leafEntry list" where
  "getByOwnerFiltered r ow f = filter f (Entry_GetByOwner r ow [])"

definition GetUpdatesForOwner :: "entry \<Rightarrow> string \<Rightarrow> update list" where
  "GetUpdatesForOwner r ow = map Update (getByOwnerFiltered r ow FilterNonDeletedButNewOrUpdated)"

definition GetDeletesForOwner :: "entry \<Rightarrow> string \<Rightarrow> string list list" where
  "GetDeletesForOwner r ow = map path (map Update (getByOwnerFiltered r ow FilterDeleted))"

subsection \<open>Setting an intent\<close>

text \<open>A loop that returns the first error, and one that collects results up to the first error.\<close>

fun firstError :: "('a \<Rightarrow> error option) \<Rightarrow> 'a list \<Rightarrow> error option" where
  "firstError f [] = None"
| "firstError f (x # xs) = (case f x of Some err \<Rightarrow> Some err | None \<Rightarrow> firstError f xs)"

fun collect :: "('a \<Rightarrow> error + 'b) \<Rightarrow> 'a list \<Rightarrow> error + 'b list" where
  "collect f [] = Inr []"
| "collect f (x # xs) =
     (case f x of
        Inl err \<Rightarrow> Inl err
      | Inr y \<Rightarrow> (case collect f xs of Inl err \<Rightarrow> Inl err | Inr ys \<Rightarrow> Inr (y # ys)))"

text \<open>The loop of \<open>populateTree\<close> that adds the updates of the request as new.\<close>

fun addCacheUpdates :: "treeContext \<Rightarrow> entry \<Rightarrow> update list \<Rightarrow> entry \<times> error option" where
  "addCacheUpdates tc root [] = (root, None)"
| "addCacheUpdates tc root (upd # upds) =
     (case AddCacheUpdateRecursive tc [] root upd True of
        (root', Some err) \<Rightarrow> (root', Some err)
      | (root', None) \<Rightarrow> addCacheUpdates tc root' upds)"

text \<open>
  \<open>populateTree\<close>. \<open>requestUpdates\<close> stands for the expansion of the request's updates and
  their conversion, one by one, to updates of the request's owner and priority, with the
  first error of \<open>expandUpdates\<close>, \<open>CompletePath\<close>, \<open>validateUpdate\<close> or \<open>proto.Marshal\<close>.
\<close>

definition populateTree :: "deps \<Rightarrow> cacheContent \<Rightarrow> setIntentRequest \<Rightarrow> error + entry" where
  "populateTree d cc req =
     (case newSharedEntryAttributes (treeContextOf d) [] [] of
        Inl err \<Rightarrow> Inl err
      | Inr root \<Rightarrow>
          (case readIntendedStoreKeysMetaError d of
             Some err \<Rightarrow> Inl err
           | None \<Rightarrow>
               (case requestUpdates d req of
                  Inl err \<Rightarrow> Inl err
                | Inr newCacheUpdates \<Rightarrow>
                    (let root' = LoadIntendedStoreOwnerData d cc root (ReqIntent req)
                                   (map path newCacheUpdates)
                     in case addCacheUpdates (treeContextOf d) root' newCacheUpdates of
                          (root'', Some err) \<Rightarrow> Inl err
                        | (root'', None) \<Rightarrow> Inr root''))))"

text \<open>\<open>cacheUpdateToUpdate\<close>.\<close>

definition cacheUpdateToUpdate :: "deps \<Rightarrow> update \<Rightarrow> error + sdcpbUpdate" where
  "cacheUpdateToUpdate d cupd =
     (case toPath d (path cupd) of
        Inl err \<Rightarrow> Inl err
      | Inr scp \<Rightarrow>
          (case Value d cupd of
             Inl err \<Rightarrow> Inl err
           | Inr v \<Rightarrow> Inr \<lparr>UpdatePath = scp, UpdateValue = v\<rparr>))"

text \<open>
  Modelled from the spec: \<open>Datastore.setCandidate\<close>, \<open>Datastore.CreateCandidate\<close> and
  \<open>cacheClient.DeleteCandidate\<close> are not part of the sources at hand. The candidate is "a
  scratch namespace in the cache used to stage a transaction": creating adds it, setting
  stages the request in it, deleting removes it, and none of them touches a store.
\<close>

definition setCandidate ::
    "deps \<Rightarrow> datastoreState \<Rightarrow> setDataRequest \<Rightarrow> datastoreState \<times> error option" where
  "setCandidate d st req =
     (case setCandidateError d req of
        Some err \<Rightarrow> (st, Some err)
      | None \<Rightarrow>
          (st\<lparr>candidates :=
                 map (\<lambda>(n, rs). if n = SetDatastore req then (n, rs @ [req]) else (n, rs))
                   (candidates st)\<rparr>, None))"

definition CreateCandidate :: "deps \<Rightarrow> string \<Rightarrow> datastoreState \<Rightarrow> datastoreState \<times> error option" where
  "CreateCandidate d name st =
     (case CreateCandidateError d name of
        Some err \<Rightarrow> (st, Some err)
      | None \<Rightarrow> (st\<lparr>candidates := candidates st @ [(name, [])]\<rparr>, None))"

definition DeleteCandidate :: "deps \<Rightarrow> string \<Rightarrow> datastoreState \<Rightarrow> datastoreState \<times> error option" where
  "DeleteCandidate d name st =
     (case DeleteCandidateError d name of
        Some err \<Rightarrow> (st, Some err)
      | None \<Rightarrow> (st\<lparr>candidates := filter (\<lambda>(n, rs). n \<noteq> name) (candidates st)\<rparr>, None))"

text \<open>
  \<open>applyIntent\<close>: the must statements, then the leafrefs, of every update; then the request
  southbound, if it holds an update or a delete (it is built without replaces).
\<close>

definition applyIntent ::
    "deps \<Rightarrow> string \<Rightarrow> setDataRequest \<Rightarrow> datastoreState \<Rightarrow> datastoreState \<times> error option" where
  "applyIntent d candidateName sdreq st =
     (if candidateName = [] then (st, Some ErrMissingCandidateName)
      else
        (case firstError (\<lambda>upd. validateMustStatement d candidateName (UpdatePath upd))
                (SetUpdate sdreq) of
           Some err \<Rightarrow> (st, Some err)
         | None \<Rightarrow>
             (case firstError (\<lambda>upd. validateLeafRef d upd candidateName) (SetUpdate sdreq) of
                Some err \<Rightarrow> (st, Some err)
              | None \<Rightarrow>
                  (let sbiReq = \<lparr>SetName = [], SetDatastore = [],
                                 SetUpdate = SetUpdate sdreq, SetDelete = SetDelete sdreq\<rparr>
                   in if length (SetUpdate sbiReq) + 0 + length (SetDelete sbiReq) > 0 then
                        (case sbiSet d sbiReq of
                           Some err \<Rightarrow> (st, Some err)
                         | None \<Rightarrow> (st\<lparr>southbound := southbound st @ [sbiReq]\<rparr>, None))
                      else (st, None)))))"

text \<open>
  \<open>SetIntentUpdate\<close>, in two parts. The first part runs from the start of the function to
  the return of \<open>applyIntent\<close>: the tree, the updates and deletes for the device, the
  validation, the candidate, the southbound apply. It ends with an error or with the tree,
  the updates and the deletes.
\<close>

definition intended_opts :: "setIntentRequest \<Rightarrow> opts" where
  "intended_opts req =
     \<lparr>Store = Store_INTENDED, OptsOwner = ReqIntent req, OptsPriority = ReqPriority req\<rparr>"

definition config_opts :: opts where
  "config_opts = \<lparr>Store = Store_CONFIG, OptsOwner = [], OptsPriority = 0\<rparr>"

definition SetIntentUpdate_apply ::
    "deps \<Rightarrow> setIntentRequest \<Rightarrow> string \<Rightarrow> datastoreState \<Rightarrow>
       datastoreState \<times> (error + entry \<times> update list \<times> string list list)" where
  "SetIntentUpdate_apply d req candidateName st =
     (case populateTree d (cacheContent st) req of
        Inl err \<Rightarrow> (st, Inl err)
      | Inr root0 \<Rightarrow>
          (let root = FinishInsertionPhase d (cacheContent st) root0;
               updates = RootEntry_GetHighestPrecedence root True
           in case RootEntry_GetDeletes root of
                Inl err \<Rightarrow> (st, Inl err)
              | Inr deletes \<Rightarrow>
                  (case collect (cacheUpdateToUpdate d) updates of
                     Inl err \<Rightarrow> (st, Inl err)
                   | Inr sdUpdates \<Rightarrow>
                       (let validationErrors = Validate d (cacheContent st) root
                        in if length validationErrors > 0
                           then (st, Inl (ErrCumulatedValidation validationErrors))
                           else
                             (case collect
                                     (\<lambda>u. cacheUpdateToUpdate d
                                        \<lparr>path = u, val = [], priority = ReqPriority req,
                                           owner = ReqIntent req, ts = 0\<rparr>) deletes of
                                Inl err \<Rightarrow> (st, Inl err)
                              | Inr sdDeletes \<Rightarrow>
                                  (let setDataReq =
                                         \<lparr>SetName = ReqName req, SetDatastore = candidateName,
                                            SetUpdate = sdUpdates,
                                            SetDelete = map UpdatePath sdDeletes\<rparr>
                                   in case setCandidate d st setDataReq of
                                        (st1, Some err) \<Rightarrow> (st1, Inl err)
                                      | (st1, None) \<Rightarrow>
                                          (case applyIntent d candidateName setDataReq st1 of
                                             (st2, Some err) \<Rightarrow> (st2, Inl err)
                                           | (st2, None) \<Rightarrow>
                                               (st2, Inr (root, updates, deletes)))))))))"

text \<open>
  The second part, after "intent applied": the intended store, the running config store and
  the raw intent.
\<close>

definition SetIntentUpdate_persist ::
    "deps \<Rightarrow> setIntentRequest \<Rightarrow> entry \<Rightarrow> update list \<Rightarrow> string list list \<Rightarrow>
       datastoreState \<Rightarrow> datastoreState \<times> error option" where
  "SetIntentUpdate_persist d req root updates deletes st =
     (let updatesOwner = GetUpdatesForOwner root (ReqIntent req);
          deletesOwner = GetDeletesForOwner root (ReqIntent req)
      in case Modify d st (intended_opts req) deletesOwner updatesOwner of
           (st1, Some err) \<Rightarrow> (st1, Some (ErrFailedUpdatingIntended err))
         | (st1, None) \<Rightarrow>
             (case Modify d st1 config_opts deletes updates of
                (st2, Some err) \<Rightarrow> (st2, Some (ErrFailedUpdatingRunning err))
              | (st2, None) \<Rightarrow>
                  if ReqDelete req
                  then deleteRawIntent d (ReqIntent req) (ReqPriority req) st2
                  else saveRawIntent d (ReqIntent req) req st2))"

definition SetIntentUpdate ::
    "deps \<Rightarrow> setIntentRequest \<Rightarrow> string \<Rightarrow> datastoreState \<Rightarrow> datastoreState \<times> error option" where
  "SetIntentUpdate d req candidateName st =
     (case SetIntentUpdate_apply d req candidateName st of
        (st', Inl err) \<Rightarrow> (st', Some err)
      | (st', Inr (root, updates, deletes)) \<Rightarrow>
          SetIntentUpdate_persist d req root updates deletes st')"

text \<open>
  \<open>SetIntent\<close> at the time \<open>now\<close> (\<open>time.Now().UnixNano()\<close>). The deferred calls run on every
  return after their \<open>defer\<close>: the candidate is deleted (a failure is logged), then the mutex
  is unlocked.
\<close>

definition Unlock :: "datastoreState \<Rightarrow> datastoreState" where
  "Unlock st = st\<lparr>intentMutex := False\<rparr>"

definition SetIntent ::
    "deps \<Rightarrow> int \<Rightarrow> setIntentRequest \<Rightarrow> datastoreState \<Rightarrow> datastoreState \<times> (error + unit)" where
  "SetIntent d now req st =
     (if intentMutex st then (st, Inl ErrResourceExhausted)
      else
        (let st0 = st\<lparr>intentMutex := True\<rparr>;
             candidateName = ReqIntent req @ ''-'' @ decimal now
         in case CreateCandidate d candidateName st0 of
              (st1, Some err) \<Rightarrow> (Unlock st1, Inl err)
            | (st1, None) \<Rightarrow>
                (case (if length (ReqUpdate req) > 0 then
                         (case SetIntentUpdate d req candidateName st1 of
                            (st2, Some err) \<Rightarrow> (st2, Inl err)
                          | (st2, None) \<Rightarrow> (st2, Inr ()))
                       else if ReqDelete req then
                         (case SetIntentDelete d req candidateName st1 of
                            (st2, Some err) \<Rightarrow> (st2, Inl err)
                          | (st2, None) \<Rightarrow> (st2, Inr ()))
                       else (st1, Inr ())) of
                   (st2, result) \<Rightarrow>
                     (Unlock (fst (DeleteCandidate d candidateName st2)), result))))"

subsection \<open>Concrete collaborators and requests\<close>

text \<open>
  Collaborators that never fail. The codec of the requests writes and reads the priority
  and the update values only, which is all that the requests below hold apart from what the
  reader fills in; the codec of the values keeps the bytes.
\<close>

definition plain_deps :: deps where
  "plain_deps =
     \<lparr>treeContextOf = plain_context,
      MarshalRequest = (\<lambda>r. Inr (word_of_int (ReqPriority r) # concat (map (\<lambda>u. GetBytesVal (UpdateValue u)) (ReqUpdate r)))),
      UnmarshalRequest =
        (\<lambda>b. case b of
                [] \<Rightarrow> Inl (ExternalError ''unexpected end of message'')
              | p # vs \<Rightarrow>
                  Inr \<lparr>ReqName = ''dev1'', ReqIntent = ''intent1'', ReqPriority = uint p,
                       ReqUpdate = map (\<lambda>v. \<lparr>UpdatePath = [''interface'', ''mtu''],
                                               UpdateValue = TypedValue_BytesVal [v]\<rparr>) vs,
                       ReqDelete = False\<rparr>),
      MarshalValue = (\<lambda>tv. Inr (GetBytesVal tv)),
      UnmarshalValue = (\<lambda>b. Inr (TypedValue_BytesVal b)),
      ModifyError = (\<lambda>o'. None),
      CreateCandidateError = (\<lambda>n. None),
      DeleteCandidateError = (\<lambda>n. None),
      readIntendedStoreKeysMetaError = None,
      requestUpdates =
        (\<lambda>r. Inr (map (\<lambda>u. \<lparr>path = UpdatePath u, val = GetBytesVal (UpdateValue u),
                              priority = ReqPriority r, owner = ReqIntent r, ts = 0\<rparr>)
                     (ReqUpdate r))),
      LoadIntendedStoreOwnerData = (\<lambda>cc root ow ps. root),
      FinishInsertionPhase = (\<lambda>cc root. root),
      Validate = (\<lambda>cc root. []),
      toPath = (\<lambda>p. Inr p),
      setCandidateError = (\<lambda>r. None),
      validateMustStatement = (\<lambda>c p. None),
      validateLeafRef = (\<lambda>u c. None),
      sbiSet = (\<lambda>r. None),
      SetIntentDelete = (\<lambda>r c st. (st, None))\<rparr>"

text \<open>The same with a device that refuses every request.\<close>

definition refusing_deps :: deps where
  "refusing_deps = plain_deps\<lparr>sbiSet := (\<lambda>r. Some (ExternalError ''commit failed''))\<rparr>"

definition intent1_request :: setIntentRequest where
  "intent1_request =
     \<lparr>ReqName = ''dev1'', ReqIntent = ''intent1'', ReqPriority = 10,
      ReqUpdate = [\<lparr>UpdatePath = [''interface'', ''mtu''],
                    UpdateValue = TypedValue_BytesVal [5]\<rparr>],
      ReqDelete = False\<rparr>"

text \<open>A request without updates and without the delete flag.\<close>

definition empty_request :: setIntentRequest where
  "empty_request =
     \<lparr>ReqName = ''dev1'', ReqIntent = ''intent1'', ReqPriority = 10, ReqUpdate = [],
      ReqDelete = False\<rparr>"

definition idle_state :: datastoreState where
  "idle_state =
     \<lparr>cacheContent = Map.empty, candidates = [], southbound = [], intentMutex = False\<rparr>"

section \<open>Properties\<close>

subsection \<open>The scan computes the two lowest variants\<close>

lemma lpv_Nil: "lowest_priority_variant [] = None"
  by (simp add: lowest_priority_variant_def)

lemma lpv_min: "lowest_priority_variant xs = Some m \<Longrightarrow> m \<in> set xs \<and> (\<forall>x \<in> set xs. Priority m \<le> Priority x)"
  unfolding lowest_priority_variant_def by (auto simp: find_Some_iff)

lemma ex_min: "xs \<noteq> [] \<Longrightarrow> \<exists>m \<in> set xs. \<forall>x \<in> set xs. Priority m \<le> Priority x"
proof (induction xs)
  case Nil then show ?case by simp
next
  case (Cons a xs)
  show ?case
  proof (cases "xs = []")
    case True then show ?thesis by simp
  next
    case False
    then obtain m where m: "m \<in> set xs" "\<forall>x \<in> set xs. Priority m \<le> Priority x"
      using Cons.IH by blast
    show ?thesis
    proof (cases "Priority a \<le> Priority m")
      case True
      then have "\<forall>x \<in> set (a # xs). Priority a \<le> Priority x" using m by auto
      then show ?thesis by auto
    next
      case False
      then have "\<forall>x \<in> set (a # xs). Priority m \<le> Priority x" using m by auto
      then show ?thesis using m(1) by auto
    qed
  qed
qed

lemma lpv_None: "lowest_priority_variant xs = None \<longleftrightarrow> xs = []"
  using ex_min [of xs] by (auto simp: lowest_priority_variant_def find_None_iff)

lemma lpv_Cons:
  "lowest_priority_variant (x # xs) =
     (case lowest_priority_variant xs of
        None \<Rightarrow> Some x
      | Some m \<Rightarrow> if Priority x \<le> Priority m then Some x else Some m)"
proof (cases "lowest_priority_variant xs")
  case None
  then have "xs = []" by (simp add: lpv_None)
  then show ?thesis by (simp add: lowest_priority_variant_def)
next
  case (Some m)
  note m = lpv_min [OF Some]
  show ?thesis
  proof (cases "Priority x \<le> Priority m")
    case True
    then have "\<forall>y \<in> set (x # xs). Priority x \<le> Priority y" using m by auto
    then show ?thesis using Some True by (simp add: lowest_priority_variant_def)
  next
    case False
    have "find (\<lambda>e. \<forall>y \<in> set (x # xs). Priority e \<le> Priority y) xs
        = find (\<lambda>e. \<forall>y \<in> set xs. Priority e \<le> Priority y) xs"
      using m False by (intro find_cong) auto
    then show ?thesis using Some False m
      by (auto simp: lowest_priority_variant_def)
  qed
qed

lemma lpv_snoc:
  "lowest_priority_variant (p @ [e]) =
     (case lowest_priority_variant p of
        None \<Rightarrow> Some e
      | Some h \<Rightarrow> if Priority h > Priority e then Some e else Some h)"
proof (induction p)
  case Nil
  then show ?case by (simp add: lpv_Cons lpv_Nil)
next
  case (Cons a p)
  then show ?case
    by (auto simp: lpv_Cons lpv_None lpv_Nil split: option.splits)
qed

lemma second_snoc:
  "second_lowest_variant (p @ [e]) =
     (case lowest_priority_variant p of
        None \<Rightarrow> None
      | Some h \<Rightarrow>
          if Priority h > Priority e then Some h
          else (case second_lowest_variant p of
                  None \<Rightarrow> Some e
                | Some s \<Rightarrow> if Priority s > Priority e then Some e else Some s))"
proof (cases "lowest_priority_variant p")
  case None
  then have "p = []" by (simp add: lpv_None)
  then show ?thesis by (simp add: second_lowest_variant_def lpv_Cons lpv_Nil)
next
  case (Some h)
  note h = lpv_min [OF Some]
  show ?thesis
  proof (cases "Priority h > Priority e")
    case True
    then have "e \<notin> set p" using h by auto
    then have "remove1 e (p @ [e]) = p" by (simp add: remove1_append)
    then show ?thesis using Some True by (simp add: second_lowest_variant_def lpv_snoc)
  next
    case False
    have "remove1 h (p @ [e]) = remove1 h p @ [e]" using h by (simp add: remove1_append)
    then show ?thesis using Some False
      by (simp add: second_lowest_variant_def lpv_snoc)
  qed
qed

lemma scan_eq: "scan lv = (lowest_priority_variant lv, second_lowest_variant lv)"
proof (induction lv rule: rev_induct)
  case Nil
  then show ?case by (simp add: scan_def lpv_Nil second_lowest_variant_def)
next
  case (snoc e p)
  have "scan (p @ [e]) = scan_step (scan p) e" by (simp add: scan_def)
  moreover have "lowest_priority_variant p = None \<Longrightarrow> second_lowest_variant p = None"
    by (simp add: second_lowest_variant_def)
  ultimately show ?case using snoc
    by (auto simp: lpv_snoc second_snoc split: option.splits)
qed

subsection \<open>Precedence on a leaf\<close>

lemma lpv_filter:
  "lowest_priority_variant xs = Some t \<Longrightarrow> P t \<Longrightarrow> lowest_priority_variant (filter P xs) = Some t"
proof (induction xs arbitrary: t)
  case Nil
  then show ?case by (simp add: lpv_Nil)
next
  case (Cons x xs)
  show ?case
  proof (cases "lowest_priority_variant xs")
    case None
    then have "xs = []" by (simp add: lpv_None)
    then show ?thesis using Cons.prems by (simp add: lpv_Cons lpv_Nil)
  next
    case (Some m)
    note m = lpv_min [OF Some]
    show ?thesis
    proof (cases "Priority x \<le> Priority m")
      case True
      then have t: "t = x" using Cons.prems(1) Some by (simp add: lpv_Cons)
      have "\<And>m'. lowest_priority_variant (filter P xs) = Some m' \<Longrightarrow> Priority x \<le> Priority m'"
      proof -
        fix m' assume "lowest_priority_variant (filter P xs) = Some m'"
        then have "m' \<in> set xs" using lpv_min by fastforce
        then show "Priority x \<le> Priority m'" using m True by fastforce
      qed
      then show ?thesis using t Cons.prems(2)
        by (auto simp: lpv_Cons split: option.splits)
    next
      case False
      then have t: "t = m" using Cons.prems(1) Some by (simp add: lpv_Cons)
      then have "lowest_priority_variant (filter P xs) = Some m"
        using Cons.IH [OF Some] Cons.prems(2) by simp
      then show ?thesis using t False by (simp add: lpv_Cons)
    qed
  qed
qed

lemma filter_drop_top:
  "\<not> P t \<Longrightarrow> filter P (remove1 t xs) = filter P xs"
  by (induction xs) auto

lemma live_top:
  "lowest_priority_variant lv = Some t \<Longrightarrow> \<not> Delete t \<Longrightarrow> lowest_live_variant lv = Some t"
  unfolding lowest_live_variant_def by (rule lpv_filter)

lemma live_second:
  assumes "lowest_priority_variant lv = Some t" "Delete t"
    and "second_lowest_variant lv = Some s" "\<not> Delete s"
  shows "lowest_live_variant lv = Some s"
proof -
  have "lowest_priority_variant (remove1 t lv) = Some s"
    using assms(1,3) by (simp add: second_lowest_variant_def)
  then have "lowest_priority_variant (filter (\<lambda>e. \<not> Delete e) (remove1 t lv)) = Some s"
    using assms(4) by (rule lpv_filter)
  then show ?thesis using assms(2) by (simp add: lowest_live_variant_def filter_drop_top)
qed

lemma live_none:
  assumes "lowest_priority_variant lv = Some t" "Delete t" "second_lowest_variant lv = None"
  shows "lowest_live_variant lv = None"
proof -
  have "remove1 t lv = []" using assms(1,3) by (simp add: second_lowest_variant_def lpv_None)
  then have "filter (\<lambda>e. \<not> Delete e) (remove1 t lv) = []" by simp
  then have "filter (\<lambda>e. \<not> Delete e) lv = []" using assms(2) by (simp add: filter_drop_top)
  then show ?thesis by (simp add: lowest_live_variant_def lpv_Nil)
qed

text \<open>
  Claim C1, as amended. On a leaf with at least one variant, \<open>GetHighestPrecedence(false)\<close>
  returns none when \<open>shouldDelete\<close> holds; otherwise, provided the two lowest-priority
  variants are not both marked delete, it returns the variant with the lowest priority among
  the variants not marked delete, the earlier-inserted one on a tie.
\<close>

theorem GetHighestPrecedence_lowest_live:
  assumes "lv \<noteq> []" and "shouldDelete lv \<or> \<not> two_lowest_deleted lv"
  shows "GetHighestPrecedence False lv = (if shouldDelete lv then None else lowest_live_variant lv)"
proof (cases "shouldDelete lv")
  case True
  then show ?thesis by (simp add: GetHighestPrecedence_def)
next
  case False
  then have a: "\<not> two_lowest_deleted lv" using assms(2) by simp
  obtain t where t: "lowest_priority_variant lv = Some t"
    using assms(1) lpv_None [of lv] by (cases "lowest_priority_variant lv") auto
  have g: "GetHighestPrecedence False lv = (if \<not> Delete t then Some t else second_lowest_variant lv)"
    using assms(1) False t by (simp add: GetHighestPrecedence_def scan_eq)
  have "GetHighestPrecedence False lv = lowest_live_variant lv"
  proof (cases "Delete t")
    case False
    then show ?thesis using g live_top [OF t] by simp
  next
    case True
    show ?thesis
    proof (cases "second_lowest_variant lv")
      case None
      then show ?thesis using g True live_none [OF t True] by simp
    next
      case (Some s)
      then have "\<not> Delete s" using a t True by (simp add: two_lowest_deleted_def)
      then show ?thesis using g True Some live_second [OF t True Some] by simp
    qed
  qed
  then show ?thesis using False by simp
qed

text \<open>Scenario B of the spec: owner b (priority 5) withdraws, owner a (priority 10) remains.\<close>

theorem GetHighestPrecedence_lowest_live_witness:
  "fallback_variants \<noteq> [] \<and> \<not> shouldDelete fallback_variants \<and>
   \<not> two_lowest_deleted fallback_variants \<and>
   GetHighestPrecedence False fallback_variants = Some (mk_leaf ''a'' 10 [1] False False False) \<and>
   lowest_live_variant fallback_variants = Some (mk_leaf ''a'' 10 [1] False False False)"
proof -
  have h1: "fallback_variants \<noteq> []" by (simp add: fallback_variants_def)
  have h2: "\<not> shouldDelete fallback_variants"
    by (simp add: fallback_variants_def shouldDelete_def mk_leaf_def mk_update_def Owner_def
        RunningIntentName_def)
  have l: "lowest_live_variant fallback_variants = Some (mk_leaf ''a'' 10 [1] False False False)"
    by (simp add: fallback_variants_def lowest_live_variant_def lowest_priority_variant_def
        mk_leaf_def mk_update_def Priority_def)
  have h3: "\<not> two_lowest_deleted fallback_variants"
    by (simp add: fallback_variants_def two_lowest_deleted_def second_lowest_variant_def
        lowest_priority_variant_def mk_leaf_def mk_update_def Priority_def)
  have h4: "shouldDelete fallback_variants \<or> \<not> two_lowest_deleted fallback_variants"
    using h3 by simp
  show ?thesis
    using GetHighestPrecedence_lowest_live [OF h1 h4] h1 h2 h3 l by simp
qed

text \<open>
  Claim C1 as stated fails where the two lowest variants are both marked delete: the scan
  keeps two candidates only, and the second one is returned without a look at its flag.
\<close>

theorem GetHighestPrecedence_lowest_live_counterexample:
  "two_deleted_variants \<noteq> [] \<and> \<not> shouldDelete two_deleted_variants \<and>
   GetHighestPrecedence False two_deleted_variants = Some (mk_leaf ''b'' 2 [2] False True False) \<and>
   lowest_live_variant two_deleted_variants = Some (mk_leaf ''c'' 3 [3] False False False) \<and>
   GetHighestPrecedence False two_deleted_variants \<noteq> lowest_live_variant two_deleted_variants"
  by (simp add: two_deleted_variants_def GetHighestPrecedence_def shouldDelete_def scan_def
      lowest_live_variant_def lowest_priority_variant_def mk_leaf_def mk_update_def
      Priority_def Owner_def RunningIntentName_def)

text \<open>
  Claim C2. On a leaf with at least one variant and \<open>shouldDelete\<close> false,
  \<open>GetHighestPrecedence(true)\<close> returns the lowest-priority variant if that one is not
  marked delete and is new or updated, the second-lowest one if the lowest is marked delete
  and the second one is not, and none otherwise.
\<close>

theorem GetHighestPrecedence_onlyChanged:
  assumes "lv \<noteq> []" and "\<not> shouldDelete lv"
  shows "GetHighestPrecedence True lv = changed_precedence lv"
proof -
  obtain t where t: "lowest_priority_variant lv = Some t"
    using assms(1) lpv_None [of lv] by (cases "lowest_priority_variant lv") auto
  show ?thesis using assms t
    by (simp add: GetHighestPrecedence_def scan_eq changed_precedence_def)
qed

theorem GetHighestPrecedence_onlyChanged_witness:
  "fallback_variants \<noteq> [] \<and> \<not> shouldDelete fallback_variants \<and>
   GetHighestPrecedence True fallback_variants = Some (mk_leaf ''a'' 10 [1] False False False) \<and>
   changed_precedence fallback_variants = Some (mk_leaf ''a'' 10 [1] False False False)"
proof -
  have h1: "fallback_variants \<noteq> []" by (simp add: fallback_variants_def)
  have h2: "\<not> shouldDelete fallback_variants"
    by (simp add: fallback_variants_def shouldDelete_def mk_leaf_def mk_update_def Owner_def
        RunningIntentName_def)
  have c: "changed_precedence fallback_variants = Some (mk_leaf ''a'' 10 [1] False False False)"
    by (simp add: fallback_variants_def changed_precedence_def second_lowest_variant_def
        lowest_priority_variant_def mk_leaf_def mk_update_def Priority_def)
  show ?thesis
    using GetHighestPrecedence_onlyChanged [OF h1 h2] h1 h2 c by simp
qed

subsection \<open>Deletion of a node\<close>

lemma shouldDelete_loop_all:
  "shouldDelete_loop lv = list_all (\<lambda>l. Owner l \<noteq> RunningIntentName \<longrightarrow> Delete l) lv"
  by (induction lv) auto

text \<open>
  Claim C5, as amended. \<open>ShouldDelete\<close> holds of a node iff either it has leaf variants, they
  are not a single variant of the owner \<open>running\<close>, and every variant of another owner than
  \<open>running\<close> is marked delete, or it has no leaf variants and \<open>ShouldDelete\<close> holds of every
  child.
\<close>

theorem ShouldDelete_iff:
  "ShouldDelete n \<longleftrightarrow>
     (leafVariants n \<noteq> [] \<and> \<not> only_running (leafVariants n) \<and>
      all_non_running_deleted (leafVariants n)) \<or>
     (leafVariants n = [] \<and> list_all ShouldDelete (childs n))"
proof (cases n)
  case (Entry nm cs lv sch crs)
  show ?thesis
  proof (cases lv)
    case Nil
    then show ?thesis using Entry by simp
  next
    case (Cons l ls)
    then show ?thesis using Entry
      by (cases ls) (auto simp: shouldDelete_def only_running_def all_non_running_deleted_def
          shouldDelete_loop_all)
  qed
qed

theorem ShouldDelete_iff_witness:
  "ShouldDelete withdrawn_leaf \<and> leafVariants withdrawn_leaf \<noteq> [] \<and>
   \<not> only_running (leafVariants withdrawn_leaf) \<and>
   all_non_running_deleted (leafVariants withdrawn_leaf)"
proof -
  have "leafVariants withdrawn_leaf \<noteq> [] \<and> \<not> only_running (leafVariants withdrawn_leaf) \<and>
      all_non_running_deleted (leafVariants withdrawn_leaf)"
    by (simp add: withdrawn_leaf_def only_running_def all_non_running_deleted_def mk_leaf_def
        mk_update_def Owner_def RunningIntentName_def)
  then show ?thesis using ShouldDelete_iff [of withdrawn_leaf] by simp
qed

text \<open>
  Claim C5 as stated fails on a leaf that only the running configuration holds: no variant
  of another owner is left, and still \<open>shouldDelete\<close> answers false ("if only running exists
  return false").
\<close>

theorem ShouldDelete_spec_counterexample:
  "ShouldDelete_spec running_leaf \<and> \<not> ShouldDelete running_leaf"
  by (simp add: running_leaf_def ShouldDelete_spec_def all_non_running_deleted_def
      shouldDelete_def mk_leaf_def mk_update_def Owner_def RunningIntentName_def)

subsection \<open>Delete aggregation\<close>





text \<open>Scenario C from the root: one delete for the list instance, none for its leaves.\<close>

lemma scenario_C_deletes: "RootEntry_GetDeletes scenario_C = Inr [[''interface'', ''eth1'']]"
  by (simp add: RootEntry_GetDeletes_def scenario_C_def keyLevel_def root_schema_def
      interface_schema_def choiceDeletes_def shouldDelete_def eth1_def
      IsDeleteKeyAttributesInLevelDown_def keyAttributes_step_def child_def leaf_of_def
      mk_update_def Owner_def RunningIntentName_def)

text \<open>The key leaf stays: the leaves are deleted one by one.\<close>

lemma key_kept_deletes:
  "GetDeletes interface_chain (eth1 False) [] =
     Inr [[''interface'', ''eth1'', ''mtu''], [''interface'', ''eth1'', ''description'']]"
  by (simp add: interface_chain_def keyLevel_def root_schema_def
      interface_schema_def choiceDeletes_def shouldDelete_def eth1_def
      IsDeleteKeyAttributesInLevelDown_def keyAttributes_step_def child_def leaf_of_def
      mk_update_def Owner_def RunningIntentName_def GetPath_def)

subsection \<open>Adding a child\<close>

lemma holdsLeafs_cases:
  "holdsLeafs s =
     (if leafVariants s = [] then None
      else (case schema s of Some (SchemaElem_Container c) \<Rightarrow> None | _ \<Rightarrow> Some PanicNilPointer))"
  by (auto simp: holdsLeafs_def container_assertion_def split: option.splits schemaElem.splits)

text \<open>The error "cannot add child ... since it holds Leafs" is never returned.\<close>

lemma AddChild_never_ErrHoldsLeafs: "snd (AddChild sPath s ePath e) \<noteq> Some ErrHoldsLeafs"
  by (auto simp: AddChild_def holdsLeafs_cases split: option.splits schemaElem.splits)

text \<open>On a parent without leaf variants the path decides alone.\<close>

lemma AddChild_no_leafs:
  assumes "leafVariants s = []"
  shows "AddChild sPath s ePath e =
     (if ePath = [] then (s, Some PanicOutOfRange)
      else if (\<forall>n. ePath \<noteq> sPath @ [n]) then (s, Some ErrDivergingPath)
      else (set_childs s (put_child (childs s) e), None))"
proof -
  have "(sPath = take (length ePath - 1) ePath) \<longleftrightarrow> (\<exists>n. ePath = sPath @ [n])" if "ePath \<noteq> []"
  proof
    assume "sPath = take (length ePath - 1) ePath"
    then have "ePath = sPath @ [last ePath]"
      using that by (metis append_butlast_last_id butlast_conv_take)
    then show "\<exists>n. ePath = sPath @ [n]" by blast
  next
    assume "\<exists>n. ePath = sPath @ [n]"
    then show "sPath = take (length ePath - 1) ePath" by auto
  qed
  then show ?thesis using assms by (auto simp: AddChild_def holdsLeafs_cases)
qed

text \<open>
  Claim C6, at an input where the code departs from it. The parent holds a leaf variant and
  its schema is a container that is no presence container, so the claim asks for an error;
  the child is added and no error is returned. With a schema that is no container at all the
  call panics.
\<close>

theorem AddChild_holding_leafs:
  "AddChild_must_fail [''system''] system_entry [''system'', ''domain''] \<and>
   AddChild [''system''] system_entry [''system'', ''domain''] domain_entry =
     (set_childs system_entry [domain_entry], None) \<and>
   AddChild [''system'', ''hostname''] hostname_leaf [''system'', ''hostname'', ''domain'']
     domain_entry = (hostname_leaf, Some PanicNilPointer)"
  by (simp add: AddChild_must_fail_def AddChild_def holdsLeafs_def container_assertion_def
      system_entry_def system_schema_def hostname_leaf_def isPresenceContainer_def)

subsection \<open>Inserting an update\<close>

declare AddCacheUpdateRecursive.simps [simp del]

lemma GetByOwner_update_by_owner:
  assumes "\<And>l. Owner l = ow \<Longrightarrow> Owner (f l) = ow"
  shows "GetByOwner (update_by_owner f ow lv) ow = map_option f (GetByOwner lv ow)"
  using assms by (induction lv) auto


lemma GetByOwner_Some_owner: "GetByOwner lv ow = Some l \<Longrightarrow> Owner l = ow"
  by (induction lv) (auto split: if_splits)

lemma GetByOwner_snoc:
  "GetByOwner lv ow = None \<Longrightarrow> Owner x = ow \<Longrightarrow> GetByOwner (lv @ [x]) ow = Some x"
  by (induction lv) (auto split: if_splits)


text \<open>
  The way of \<open>SetIntentUpdate\<close>: the owner's variant is marked delete, then the same update
  arrives again. The variants are as before the mark.
\<close>

lemma update_by_owner_unmark:
  "GetByOwner xs ow = Some l \<Longrightarrow> \<not> Delete l \<Longrightarrow>
     update_by_owner (\<lambda>l. l\<lparr>Delete := False\<rparr>) ow (update_by_owner MarkDelete ow xs) = xs"
  by (induction xs) (auto simp: MarkDelete_def Owner_def split: if_splits)

lemma addLeafEntry_variant:
  "\<exists>l. GetByOwner (addLeafEntry lv c new) (owner c) = Some l \<and> EqualSkipPath l c \<and> \<not> Delete l"
proof (cases "GetByOwner lv (owner c)")
  case None
  have o: "Owner (NewLeafEntry c new) = owner c" by (simp add: NewLeafEntry_def Owner_def)
  have "addLeafEntry lv c new = lv @ [NewLeafEntry c new]"
    using None by (simp add: addLeafEntry_def)
  moreover have "EqualSkipPath (NewLeafEntry c new) c \<and> \<not> Delete (NewLeafEntry c new)"
    by (simp add: EqualSkipPath_def NewLeafEntry_def)
  ultimately show ?thesis using GetByOwner_snoc [OF None o] by simp
next
  case (Some k)
  show ?thesis
  proof (cases "EqualSkipPath k c")
    case True
    let ?clr = "\<lambda>l::leafEntry. l\<lparr>Delete := False\<rparr>"
    have lv': "addLeafEntry lv c new = update_by_owner ?clr (owner c) lv"
      using Some True by (simp add: addLeafEntry_def)
    have "\<And>l. Owner l = owner c \<Longrightarrow> Owner (?clr l) = owner c" by (simp add: Owner_def)
    then have "GetByOwner (update_by_owner ?clr (owner c) lv) (owner c) = Some (?clr k)"
      using Some GetByOwner_update_by_owner [of "owner c" ?clr lv] by simp
    moreover have "EqualSkipPath (?clr k) c \<and> \<not> Delete (?clr k)"
      using True by (simp add: EqualSkipPath_def)
    ultimately show ?thesis using lv' by simp
  next
    case False
    let ?m = "\<lambda>l. MarkUpdate l c"
    have lv': "addLeafEntry lv c new = update_by_owner ?m (owner c) lv"
      using Some False by (simp add: addLeafEntry_def)
    have "\<And>l. Owner l = owner c \<Longrightarrow> Owner (?m l) = owner c"
      by (simp add: Owner_def MarkUpdate_def)
    then have "GetByOwner (update_by_owner ?m (owner c) lv) (owner c) = Some (?m k)"
      using Some GetByOwner_update_by_owner [of "owner c" ?m lv] by simp
    moreover have "EqualSkipPath (?m k) c \<and> \<not> Delete (?m k)"
      by (simp add: EqualSkipPath_def MarkUpdate_def)
    ultimately show ?thesis using lv' by simp
  qed
qed

lemma addLeafEntry_after_MarkDelete:
  "addLeafEntry (update_by_owner MarkDelete (owner c) (addLeafEntry lv c new)) c new' =
     addLeafEntry lv c new"
proof -
  let ?lv = "addLeafEntry lv c new"
  let ?marked = "update_by_owner MarkDelete (owner c) ?lv"
  obtain l where l: "GetByOwner ?lv (owner c) = Some l" "EqualSkipPath l c" "\<not> Delete l"
    using addLeafEntry_variant [of lv c new] by blast
  have own: "\<And>l. Owner l = owner c \<Longrightarrow> Owner (MarkDelete l) = owner c"
    by (simp add: Owner_def MarkDelete_def)
  have g: "GetByOwner ?marked (owner c) = Some (MarkDelete l)"
    using l(1) GetByOwner_update_by_owner [of "owner c" MarkDelete ?lv] own by simp
  have e: "EqualSkipPath (MarkDelete l) c"
    using l(2) by (simp add: EqualSkipPath_def MarkDelete_def)
  have restored: "update_by_owner (\<lambda>l. l\<lparr>Delete := False\<rparr>) (owner c) ?marked = ?lv"
    using l(1,3) by (rule update_by_owner_unmark)
  show ?thesis using g e restored by (simp add: addLeafEntry_def)
qed




lemma set_childs_sel [simp]:
  "pathElemName (set_childs s cs) = pathElemName s"
  "childs (set_childs s cs) = cs"
  "leafVariants (set_childs s cs) = leafVariants s"
  "schema (set_childs s cs) = schema s"
  "choicesResolvers (set_childs s cs) = choicesResolvers s"
  by (simp_all add: set_childs_def)

lemma set_leafVariants_sel [simp]:
  "pathElemName (set_leafVariants s lv) = pathElemName s"
  "childs (set_leafVariants s lv) = childs s"
  "leafVariants (set_leafVariants s lv) = lv"
  "schema (set_leafVariants s lv) = schema s"
  "choicesResolvers (set_leafVariants s lv) = choicesResolvers s"
  by (simp_all add: set_leafVariants_def)

lemma set_childs_again [simp]: "set_childs (set_childs s cs) cs' = set_childs s cs'"
  by (simp add: set_childs_def)

lemma set_leafVariants_again [simp]:
  "set_leafVariants (set_leafVariants s lv) lv' = set_leafVariants s lv'"
  by (simp add: set_leafVariants_def)











subsection \<open>Navigation\<close>

declare Navigate.simps [simp del] Navigate_loop.simps [simp del]

text \<open>The empty path is resolved to the entry itself.\<close>

lemma Navigate_empty: "Navigate tc root s [] = (root, Inr s)"
  by (simp add: Navigate.simps)

text \<open>
  The loop variable \<open>cont\<close> starts as false, so the body of the loop never runs: every
  other path ends in the error after the loop, whatever the tree holds.
\<close>

lemma Navigate_nonempty:
  "path' \<noteq> [] \<Longrightarrow> Navigate tc root s path' = (root, Inl ErrChildDoesNotExist)"
  by (simp add: Navigate.simps Navigate_loop.simps)

text \<open>
  Claim C7, at inputs where the code departs from it. The root has the active child
  \<open>interface\<close>, and still the path to it, and the path \<open>.\<close>, end in the error "reached ...
  but child ... does not exist"; no child is looked up and nothing is loaded.
\<close>

theorem Navigate_existing_child:
  "child (filterActiveChoiceCaseChilds interface_root) ''interface'' =
     Some (Entry ''interface'' [] [] (Some interface_schema) []) \<and>
   Navigate plain_context interface_root [] [''interface''] =
     (interface_root, Inl ErrChildDoesNotExist) \<and>
   Navigate plain_context interface_root [] [''.''] =
     (interface_root, Inl ErrChildDoesNotExist)"
  by (simp add: Navigate.simps Navigate_loop.simps interface_root_def
      filterActiveChoiceCaseChilds_def GetSkipElements_def child_def)

subsection \<open>Raw intents\<close>

declare decimal_nat.simps [simp del]

lemma rawIntentName_example: "rawIntentName ''intent1'' 10 = ''__raw_intent__intent1_10''"
  by (simp add: rawIntentName_def rawIntentPrefix_def intentRawNameSep_def decimal_def
      decimal_nat.simps digit_def)

lemma rawIntentName_format:
  "rawIntentName name pr = ''__raw_intent__'' @ name @ ''_'' @ decimal pr"
  by (simp add: rawIntentName_def rawIntentPrefix_def intentRawNameSep_def)

lemma cache_Modify_put:
  "cache_Modify m o' [] [u] (scoped o' (path u)) = Some u"
  by (simp add: cache_Modify_def cache_put_def)

lemma cache_Read_one:
  "m (scoped o' p) = Some u \<Longrightarrow> cache_Read m o' [p] = [u]"
  by (simp add: cache_Read_def List.map_filter_def)

text \<open>
  Claim C9. A raw intent that was saved lies in the intents store under the one path element
  \<open>"__raw_intent__" + owner + "_" + decimal priority\<close>, as an update whose value is the bytes
  value of the serialized request; and, with a protobuf library that reads back what it
  wrote, \<open>getRawIntent\<close> for the owner and the priority of the request returns the request.
\<close>

theorem saveRawIntent_getRawIntent:
  assumes "saveRawIntent d intentName req st = (st', None)"
    and "\<forall>b. MarshalRequest d req = Inr b \<longrightarrow> UnmarshalRequest d b = Inr req"
    and "\<forall>b v. MarshalValue d (TypedValue_BytesVal b) = Inr v \<longrightarrow>
           UnmarshalValue d v = Inr (TypedValue_BytesVal b)"
  shows "(\<exists>b u. MarshalRequest d req = Inr b \<and>
            cacheContent st' (Store_INTENTS, [], 0,
               [''__raw_intent__'' @ intentName @ ''_'' @ decimal (ReqPriority req)]) = Some u \<and>
            Value d u = Inr (TypedValue_BytesVal b)) \<and>
         getRawIntent d intentName (ReqPriority req) st' = Inr req"
proof -
  let ?rin = "rawIntentName intentName (ReqPriority req)"
  obtain b where b: "MarshalRequest d req = Inr b"
    using assms(1) by (cases "MarshalRequest d req") (auto simp: saveRawIntent_def)
  obtain v where v: "MarshalValue d (TypedValue_BytesVal b) = Inr v"
    using assms(1) b
    by (cases "MarshalValue d (TypedValue_BytesVal b)") (auto simp: saveRawIntent_def NewUpdate_def)
  let ?u = "\<lparr>path = [?rin], val = v, priority = 0, owner = [], ts = 0\<rparr>"
  have m: "Modify d st intents_opts [] [?u] = (st', None)"
    using assms(1) b v by (simp add: saveRawIntent_def NewUpdate_def)
  then have cc: "cacheContent st' = cache_Modify (cacheContent st) intents_opts [] [?u]"
    by (auto simp: Modify_def split: option.splits)
  have stored: "cacheContent st' (scoped intents_opts [?rin]) = Some ?u"
    using cache_Modify_put [of "cacheContent st" intents_opts ?u] cc by simp
  have val: "Value d ?u = Inr (TypedValue_BytesVal b)"
    using assms(3) v by (simp add: Value_def)
  have rd: "cache_Read (cacheContent st') intents_opts [[?rin]] = [?u]"
    using stored by (rule cache_Read_one)
  have get: "getRawIntent d intentName (ReqPriority req) st' = Inr req"
    using rd val assms(2) b by (simp add: getRawIntent_def)
  have key: "scoped intents_opts [?rin] =
      (Store_INTENTS, [], 0, [''__raw_intent__'' @ intentName @ ''_'' @ decimal (ReqPriority req)])"
    by (simp add: scoped_def intents_opts_def rawIntentName_format)
  show ?thesis using b stored val get key by auto
qed

theorem saveRawIntent_getRawIntent_witness:
  "snd (saveRawIntent plain_deps ''intent1'' intent1_request idle_state) = None \<and>
   getRawIntent plain_deps ''intent1'' 10
     (fst (saveRawIntent plain_deps ''intent1'' intent1_request idle_state)) = Inr intent1_request \<and>
   (\<exists>u. cacheContent (fst (saveRawIntent plain_deps ''intent1'' intent1_request idle_state))
           (Store_INTENTS, [], 0, [''__raw_intent__intent1_10'']) = Some u)"
proof -
  have s: "snd (saveRawIntent plain_deps ''intent1'' intent1_request idle_state) = None"
    by (simp add: saveRawIntent_def plain_deps_def NewUpdate_def Modify_def)
  then have h1: "saveRawIntent plain_deps ''intent1'' intent1_request idle_state =
      (fst (saveRawIntent plain_deps ''intent1'' intent1_request idle_state), None)"
    by (metis prod.collapse)
  have h2: "\<forall>b. MarshalRequest plain_deps intent1_request = Inr b \<longrightarrow>
      UnmarshalRequest plain_deps b = Inr intent1_request"
    by (simp add: plain_deps_def intent1_request_def)
  have h3: "\<forall>b v. MarshalValue plain_deps (TypedValue_BytesVal b) = Inr v \<longrightarrow>
      UnmarshalValue plain_deps v = Inr (TypedValue_BytesVal b)"
    by (simp add: plain_deps_def)
  have p: "ReqPriority intent1_request = 10" by (simp add: intent1_request_def)
  have k: "''__raw_intent__'' @ ''intent1'' @ ''_'' @ decimal 10 = ''__raw_intent__intent1_10''"
    by (simp add: decimal_def decimal_nat.simps digit_def)
  show ?thesis
    using saveRawIntent_getRawIntent [OF h1 h2 h3] s p k by auto
qed

subsection \<open>Setting an intent\<close>



lemma applyIntent_failed:
  "applyIntent d c r st = (st', Some err) \<Longrightarrow> st' = st"
  by (auto simp: applyIntent_def Let_def split: option.splits if_splits)






text \<open>
  Claim C10. For a request without updates and without the delete flag, with the intent
  mutex free and the candidate created, \<open>SetIntent\<close> returns the empty response; the state
  afterwards is the state before with the mutex free again and the candidate created and
  deleted (it stays if its deletion fails, which is only logged). Nothing else is read of
  the collaborators: neither \<open>SetIntentUpdate\<close> nor \<open>SetIntentDelete\<close> takes part, and the
  stores and the device are untouched.
\<close>

theorem SetIntent_no_update_no_delete:
  assumes "ReqUpdate req = []" and "\<not> ReqDelete req" and "\<not> intentMutex st"
    and "CreateCandidateError d (ReqIntent req @ ''-'' @ decimal now) = None"
  shows "SetIntent d now req st =
     (st\<lparr>candidates :=
            (if DeleteCandidateError d (ReqIntent req @ ''-'' @ decimal now) = None
             then filter (\<lambda>(n, rs). n \<noteq> ReqIntent req @ ''-'' @ decimal now) (candidates st)
             else candidates st @ [(ReqIntent req @ ''-'' @ decimal now, [])])\<rparr>,
      Inr ())"
  using assms
  by (auto simp: SetIntent_def CreateCandidate_def DeleteCandidate_def Unlock_def Let_def
      split: option.splits)

theorem SetIntent_no_update_no_delete_witness:
  "ReqUpdate empty_request = [] \<and> \<not> ReqDelete empty_request \<and> \<not> intentMutex idle_state \<and>
   SetIntent refusing_deps 1700000000 empty_request idle_state = (idle_state, Inr ())"
proof -
  have h1: "ReqUpdate empty_request = []" by (simp add: empty_request_def)
  have h2: "\<not> ReqDelete empty_request" by (simp add: empty_request_def)
  have h3: "\<not> intentMutex idle_state" by (simp add: idle_state_def)
  have h4: "CreateCandidateError refusing_deps
      (ReqIntent empty_request @ ''-'' @ decimal 1700000000) = None"
    by (simp add: refusing_deps_def plain_deps_def)
  have h5: "DeleteCandidateError refusing_deps
      (ReqIntent empty_request @ ''-'' @ decimal 1700000000) = None"
    by (simp add: refusing_deps_def plain_deps_def)
  have c: "candidates idle_state = []" by (simp add: idle_state_def)
  show ?thesis
    using SetIntent_no_update_no_delete [OF h1 h2 h3 h4] h1 h2 h3 h5 c by simp
qed

end
